theory Spec2Isabelle
  imports Main "HOL-Library.Sublist"
begin

section \<open>Errors\<close>

text \<open>
  The server throws two kinds of exception: \<open>McpError\<close> of the MCP SDK, with an error
  code and a message, and plain JavaScript errors (\<open>Error\<close>, \<open>TypeError\<close>,
  \<open>SyntaxError\<close>, file-system errors), of which the code only ever reads the message.
\<close>

datatype error_code = InvalidParams | InvalidRequest | InternalError | MethodNotFound

datatype js_error = McpError error_code string | JsError string

section \<open>Action registry\<close>

text \<open>The three constant sets of \<open>index.ts\<close>; \<open>Set.has\<close> is membership.\<close>

definition CALLBACK_ACTIONS :: "string list" where
  "CALLBACK_ACTIONS =
     [''authorize'', ''read-sheet'', ''get-item'', ''get-root-items'', ''get-version'']"

definition ALLOWED_ACTIONS :: "string list" where
  "ALLOWED_ACTIONS =
     [''new-sheet'', ''new-group'', ''insert'', ''attach-note'', ''attach-keywords'',
      ''attach-image'', ''open'', ''open-all'', ''open-recent'', ''open-favorites'',
      ''get-version'', ''authorize'', ''read-sheet'', ''get-item'', ''get-root-items'',
      ''move'', ''copy'', ''trash'', ''set-group-title'', ''set-sheet-title'',
      ''remove-keywords'', ''update-note'', ''remove-note'']"

definition DESTRUCTIVE_ACTIONS :: "string list" where
  "DESTRUCTIVE_ACTIONS =
     [''trash'', ''move'', ''set-group-title'', ''set-sheet-title'', ''remove-keywords'',
      ''remove-note'', ''update-note'']"

definition RATE_LIMIT_WINDOW_MS :: int where
  "RATE_LIMIT_WINDOW_MS = 60000"

definition MAX_DESTRUCTIVE_OPS_PER_MINUTE :: int where
  "MAX_DESTRUCTIVE_OPS_PER_MINUTE = 10"

section \<open>Rate limiter\<close>

text \<open>
  \<open>rateLimitState\<close> is a \<open>Map\<close> from the action name to an object with the two
  fields below. \<open>Date.now()\<close> is an input of the model (\<open>now\<close>, in milliseconds).
\<close>

record rate_entry =
  count :: int
  resetTime :: int

type_synonym rate_state = "string \<rightharpoonup> rate_entry"

text \<open>
  \<open>checkRateLimit\<close> returns nothing or throws; the model returns the outcome together
  with the map as the call leaves it. \<open>state.count++\<close> mutates the object held by the
  map, which is the update of the entry.
\<close>

definition checkRateLimit :: "string \<Rightarrow> int \<Rightarrow> rate_state \<Rightarrow> (js_error + unit) \<times> rate_state" where
  "checkRateLimit action now st =
     (if action \<notin> set DESTRUCTIVE_ACTIONS then (Inr (), st)
      else case st action of
             None \<Rightarrow>
               (Inr (), st(action \<mapsto> \<lparr>count = 1, resetTime = now + RATE_LIMIT_WINDOW_MS\<rparr>))
           | Some state \<Rightarrow>
               if now > resetTime state
               then (Inr (), st(action \<mapsto> \<lparr>count = 1, resetTime = now + RATE_LIMIT_WINDOW_MS\<rparr>))
               else if count state \<ge> MAX_DESTRUCTIVE_OPS_PER_MINUTE
               then (Inl (McpError InvalidRequest
                       (''Rate limit exceeded for '' @ action @
                        ''. Please wait before trying again.'')), st)
               else (Inr (), st(action \<mapsto> state\<lparr>count := count state + 1\<rparr>)))"

text \<open>
  A sequence of calls, each with its action and the clock reading it sees; a call that
  throws leaves the map to the next call as it is. The outcomes are collected in order.
\<close>

fun rate_calls :: "(string \<times> int) list \<Rightarrow> rate_state \<Rightarrow> (js_error + unit) list \<times> rate_state" where
  "rate_calls [] st = ([], st)"
| "rate_calls ((action, now) # cs) st =
     (let (r, st1) = checkRateLimit action now st;
          (rs, st2) = rate_calls cs st1
      in (r # rs, st2))"

text \<open>
  The bound that every entry of the map keeps: at least one call counted, at most the
  ceiling.
\<close>

definition count_bounded :: "rate_state \<Rightarrow> bool" where
  "count_bounded st \<longleftrightarrow>
     (\<forall>a e. st a = Some e \<longrightarrow> 1 \<le> count e \<and> count e \<le> MAX_DESTRUCTIVE_OPS_PER_MINUTE)"

section \<open>JavaScript values and string coercion\<close>

text \<open>
  Tool arguments and callback artifacts are values produced by \<open>JSON.parse\<close>, plus
  \<open>undefined\<close> for an absent property. Numbers are the integers (a JSON fraction is
  outside the model). A string is a list of UTF-16 code units; \<open>char\<close> holds the code
  units below 256, which is the part of the alphabet the model covers. An object is the
  list of its own properties; \<open>JSON.parse\<close> creates each as an own data property, so a
  key such as \<open>toString\<close> shadows the inherited method.
\<close>

datatype jsval =
    JUndefined
  | JNull
  | JBool bool
  | JNum int
  | JStr string
  | JArr "jsval list"
  | JObj "(string \<times> jsval) list"

definition digit_char :: "nat \<Rightarrow> char" where
  "digit_char d = ''0123456789'' ! d"

function digits_of :: "nat \<Rightarrow> string" where
  "digits_of n = (if n < 10 then [digit_char n] else digits_of (n div 10) @ [digit_char (n mod 10)])"
  by pat_completeness auto
termination
  by (relation "measure id") auto

declare digits_of.simps [simp del]

text \<open>The decimal form that \<open>String(n)\<close> and a template literal give an integer.\<close>

definition show_int :: "int \<Rightarrow> string" where
  "show_int n = (if n < 0 then CHR ''-'' # digits_of (nat (- n)) else digits_of (nat n))"

text \<open>
  \<open>String.prototype.trim\<close> strips white space and line terminators from both ends; below
  256 these are tab, line feed, vertical tab, form feed, carriage return, space and the
  no-break space.
\<close>

definition is_js_space :: "char \<Rightarrow> bool" where
  "is_js_space c \<longleftrightarrow>
     c \<in> set [CHR 0x09, CHR 0x0A, CHR 0x0B, CHR 0x0C, CHR 0x0D, CHR 0x20, CHR 0xA0]"

definition trim :: "string \<Rightarrow> string" where
  "trim s = rev (dropWhile is_js_space (rev (dropWhile is_js_space s)))"

text \<open>
  \<open>String(v)\<close>. An array is joined with commas, \<open>null\<close> and \<open>undefined\<close> elements giving
  the empty string. An object is converted by its \<open>toString\<close> method: the inherited one
  gives \<open>[object Object]\<close>; an own property \<open>toString\<close> of a parsed object is never
  callable, the inherited \<open>valueOf\<close> returns the object itself, and the conversion
  throws a \<open>TypeError\<close> (\<open>Inl\<close> carries its message).
\<close>

fun js_String :: "jsval \<Rightarrow> string + string"
  and js_join :: "jsval list \<Rightarrow> string + string" where
  "js_String JUndefined = Inr ''undefined''"
| "js_String JNull = Inr ''null''"
| "js_String (JBool b) = Inr (if b then ''true'' else ''false'')"
| "js_String (JNum n) = Inr (show_int n)"
| "js_String (JStr s) = Inr s"
| "js_String (JArr vs) = js_join vs"
| "js_String (JObj kvs) =
     (if ''toString'' \<in> set (map fst kvs)
      then Inl ''Cannot convert object to primitive value''
      else Inr ''[object Object]'')"
| "js_join [] = Inr ''''"
| "js_join (v # vs) =
     (case (if v = JUndefined \<or> v = JNull then Inr '''' else js_String v) of
        Inl e \<Rightarrow> Inl e
      | Inr s \<Rightarrow>
          if vs = [] then Inr s
          else (case js_join vs of Inl e \<Rightarrow> Inl e | Inr t \<Rightarrow> Inr (s @ '','' @ t)))"

text \<open>The values on which \<open>String\<close> does not throw.\<close>

fun coercible :: "jsval \<Rightarrow> bool"
  and coercible_all :: "jsval list \<Rightarrow> bool" where
  "coercible (JArr vs) = coercible_all vs"
| "coercible (JObj kvs) = (''toString'' \<notin> set (map fst kvs))"
| "coercible JUndefined = True"
| "coercible JNull = True"
| "coercible (JBool b) = True"
| "coercible (JNum n) = True"
| "coercible (JStr s) = True"
| "coercible_all [] = True"
| "coercible_all (v # vs) = (coercible v \<and> coercible_all vs)"

text \<open>Truthiness, as \<open>if (x)\<close> and \<open>x || y\<close> test it.\<close>

fun truthy :: "jsval \<Rightarrow> bool" where
  "truthy JUndefined = False"
| "truthy JNull = False"
| "truthy (JBool b) = b"
| "truthy (JNum n) = (n \<noteq> 0)"
| "truthy (JStr s) = (s \<noteq> '''')"
| "truthy (JArr vs) = True"
| "truthy (JObj kvs) = True"

text \<open>
  Reading a property \<open>v.k\<close>. On \<open>null\<close> and \<open>undefined\<close> it throws a \<open>TypeError\<close>
  (\<open>Inl\<close> carries the message). On an object it is the own property or, failing that,
  \<open>undefined\<close>; on the other values it is \<open>undefined\<close>. The function is used with the
  keys \<open>isError\<close>, \<open>data\<close> and \<open>errorMessage\<close> only, none of which a built-in
  prototype defines.
\<close>

fun js_get :: "jsval \<Rightarrow> string \<Rightarrow> string + jsval" where
  "js_get JUndefined k =
     Inl (''Cannot read properties of undefined (reading '' @ [CHR 0x27] @ k @ [CHR 0x27] @ '')'')"
| "js_get JNull k =
     Inl (''Cannot read properties of null (reading '' @ [CHR 0x27] @ k @ [CHR 0x27] @ '')'')"
| "js_get (JObj kvs) k = Inr (case map_of kvs k of None \<Rightarrow> JUndefined | Some v \<Rightarrow> v)"
| "js_get v k = Inr JUndefined"

section \<open>Parameter validation\<close>

text \<open>\<open>validateRequired\<close> takes a value of type \<open>unknown\<close>.\<close>

definition validateRequired :: "jsval \<Rightarrow> string \<Rightarrow> js_error + string" where
  "validateRequired v fieldName =
     (if v = JUndefined \<or> v = JNull
      then Inl (McpError InvalidParams (fieldName @ '' is required''))
      else case js_String v of
             Inl msg \<Rightarrow> Inl (JsError msg)
           | Inr s \<Rightarrow>
               let strValue = trim s
               in if strValue = ''''
                  then Inl (McpError InvalidParams (fieldName @ '' cannot be empty''))
                  else Inr strValue)"

section \<open>The file system\<close>

text \<open>
  The part of the file system the code can observe through Node's \<open>fs\<close> module: a
  partial map from absolute paths, as lists of segments, to nodes. A path string is
  resolved lexically (empty and \<open>.\<close> segments dropped, \<open>..\<close> removing the segment before
  it); the working directory is the root, and directories are not themselves symbolic
  links. A symbolic link in the last position is followed by the calls that follow
  links, at most \<open>MAXSYMLINKS\<close> times. The process may read, write and unlink whatever
  exists: permission failures are outside the model.
\<close>

datatype node = File string nat | Symlink string | Dir

type_synonym path = "string list"

type_synonym filesystem = "path \<rightharpoonup> node"

fun split_on :: "char \<Rightarrow> string \<Rightarrow> string list" where
  "split_on c [] = [[]]"
| "split_on c (x # xs) =
     (if x = c then [] # split_on c xs
      else (case split_on c xs of [] \<Rightarrow> [[x]] | w # ws \<Rightarrow> (x # w) # ws))"

fun walk :: "path \<Rightarrow> string list \<Rightarrow> path" where
  "walk acc [] = acc"
| "walk acc (seg # segs) =
     (if seg = '''' \<or> seg = ''.'' then walk acc segs
      else if seg = ''..'' then walk (butlast acc) segs
      else walk (acc @ [seg]) segs)"

definition resolve_from :: "path \<Rightarrow> string \<Rightarrow> path" where
  "resolve_from base p =
     (if p \<noteq> [] \<and> hd p = CHR ''/'' then walk [] (split_on CHR ''/'' p)
      else walk base (split_on CHR ''/'' p))"

definition resolve_path :: "string \<Rightarrow> path" where
  "resolve_path p = resolve_from [] p"

definition node_at :: "filesystem \<Rightarrow> path \<Rightarrow> node option" where
  "node_at fs p = (if p = [] then Some Dir else fs p)"

definition MAXSYMLINKS :: nat where
  "MAXSYMLINKS = 32"

text \<open>
  The path a link-following call ends at: the first path of the chain that is not a
  symbolic link (it may not exist). \<open>None\<close> is \<open>ELOOP\<close>.
\<close>

fun final_path :: "nat \<Rightarrow> filesystem \<Rightarrow> path \<Rightarrow> path option" where
  "final_path 0 fs p = None"
| "final_path (Suc n) fs p =
     (case node_at fs p of
        Some (Symlink target) \<Rightarrow> final_path n fs (resolve_from (butlast p) target)
      | _ \<Rightarrow> Some p)"

definition quoted :: "string \<Rightarrow> string" where
  "quoted p = [CHR 0x27] @ p @ [CHR 0x27]"

text \<open>\<open>fs.existsSync\<close> follows links and never throws.\<close>

definition existsSync :: "filesystem \<Rightarrow> string \<Rightarrow> bool" where
  "existsSync fs p =
     (case final_path MAXSYMLINKS fs (resolve_path p) of
        None \<Rightarrow> False
      | Some q \<Rightarrow> node_at fs q \<noteq> None)"

text \<open>
  The calls that throw return \<open>Inl\<close> with the message of the error. \<open>fs.lstatSync\<close> does
  not follow a link; the code reads of its result only the kind of the node and the
  mode.
\<close>

definition lstatSync :: "filesystem \<Rightarrow> string \<Rightarrow> string + node" where
  "lstatSync fs p =
     (case node_at fs (resolve_path p) of
        None \<Rightarrow> Inl (''ENOENT: no such file or directory, lstat '' @ quoted p)
      | Some nd \<Rightarrow> Inr nd)"

fun isSymbolicLink :: "node \<Rightarrow> bool" where
  "isSymbolicLink (Symlink target) = True"
| "isSymbolicLink nd = False"

fun isFile :: "node \<Rightarrow> bool" where
  "isFile (File content mode) = True"
| "isFile nd = False"

definition readFileSync :: "filesystem \<Rightarrow> string \<Rightarrow> string + string" where
  "readFileSync fs p =
     (case final_path MAXSYMLINKS fs (resolve_path p) of
        None \<Rightarrow> Inl (''ELOOP: too many symbolic links encountered, open '' @ quoted p)
      | Some q \<Rightarrow>
          (case node_at fs q of
             None \<Rightarrow> Inl (''ENOENT: no such file or directory, open '' @ quoted p)
           | Some Dir \<Rightarrow> Inl ''EISDIR: illegal operation on a directory, read''
           | Some (Symlink target) \<Rightarrow>
               Inl (''ELOOP: too many symbolic links encountered, open '' @ quoted p)
           | Some (File content mode) \<Rightarrow> Inr content))"

text \<open>
  \<open>fs.writeFileSync\<close> with flag \<open>w\<close>: the file a link leads to is truncated and
  written, its mode kept; a file that does not exist is created with the given mode,
  provided its directory exists.
\<close>

definition writeFileSync :: "filesystem \<Rightarrow> string \<Rightarrow> string \<Rightarrow> nat \<Rightarrow> string + filesystem" where
  "writeFileSync fs p data mode =
     (case final_path MAXSYMLINKS fs (resolve_path p) of
        None \<Rightarrow> Inl (''ELOOP: too many symbolic links encountered, open '' @ quoted p)
      | Some q \<Rightarrow>
          (case node_at fs q of
             Some Dir \<Rightarrow> Inl (''EISDIR: illegal operation on a directory, open '' @ quoted p)
           | Some (Symlink target) \<Rightarrow>
               Inl (''ELOOP: too many symbolic links encountered, open '' @ quoted p)
           | Some (File content old_mode) \<Rightarrow> Inr (fs(q \<mapsto> File data old_mode))
           | None \<Rightarrow>
               if node_at fs (butlast q) = Some Dir then Inr (fs(q \<mapsto> File data mode))
               else Inl (''ENOENT: no such file or directory, open '' @ quoted p)))"

text \<open>\<open>fs.unlinkSync\<close> removes the name itself, a link included, and refuses a directory.\<close>

definition unlinkSync :: "filesystem \<Rightarrow> string \<Rightarrow> string + filesystem" where
  "unlinkSync fs p =
     (case node_at fs (resolve_path p) of
        None \<Rightarrow> Inl (''ENOENT: no such file or directory, unlink '' @ quoted p)
      | Some Dir \<Rightarrow> Inl (''EPERM: operation not permitted, unlink '' @ quoted p)
      | Some nd \<Rightarrow> Inr (fs((resolve_path p) := None)))"

section \<open>Secure ephemeral store\<close>

text \<open>
  \<open>SecureTempFileManager\<close> of \<open>secure-temp.ts\<close>. Its only field is \<open>tempDir\<close>, set by the
  constructor to the given directory under the user's home; every method takes it as
  its first argument here. \<open>String.prototype.startsWith\<close> is the prefix order on
  strings. The warnings written to the console are not part of the state.
\<close>

definition tempDir_of :: "string \<Rightarrow> string" where
  "tempDir_of homedir = homedir @ ''/Library/Application Support/ulysses-mcp/tmp''"

definition getCallbackPath :: "string \<Rightarrow> string \<Rightarrow> string" where
  "getCallbackPath tempDir callbackId = tempDir @ ''/callback-'' @ callbackId @ ''.json''"

text \<open>The mode \<open>0o600\<close>: read and write for the owner only.\<close>

definition MODE_0600 :: nat where
  "MODE_0600 = 6 * 64"

definition writeSecure :: "string \<Rightarrow> string \<Rightarrow> string \<Rightarrow> filesystem \<Rightarrow> js_error + filesystem" where
  "writeSecure tempDir filePath data fs =
     (if \<not> prefix tempDir filePath
      then Inl (JsError ''Invalid file path: must be within secure temp directory'')
      else case writeFileSync fs filePath data MODE_0600 of
             Inl msg \<Rightarrow> Inl (JsError (''Failed to write secure file: '' @ msg))
           | Inr fs' \<Rightarrow> Inr fs')"

definition readSecure :: "string \<Rightarrow> string \<Rightarrow> filesystem \<Rightarrow> js_error + string" where
  "readSecure tempDir filePath fs =
     (if \<not> prefix tempDir filePath
      then Inl (JsError ''Invalid file path: must be within secure temp directory'')
      else case
             (if \<not> existsSync fs filePath then Inl ''File does not exist''
              else case lstatSync fs filePath of
                     Inl msg \<Rightarrow> Inl msg
                   | Inr stats \<Rightarrow>
                       if isSymbolicLink stats
                       then Inl ''File is a symlink - potential security issue''
                       else if \<not> isFile stats then Inl ''Not a regular file''
                       else readFileSync fs filePath)
           of Inl msg \<Rightarrow> Inl (JsError (''Failed to read secure file: '' @ msg))
            | Inr content \<Rightarrow> Inr content)"

definition deleteSecure :: "string \<Rightarrow> string \<Rightarrow> filesystem \<Rightarrow> js_error + filesystem" where
  "deleteSecure tempDir filePath fs =
     (if \<not> prefix tempDir filePath
      then Inl (JsError ''Invalid file path: must be within secure temp directory'')
      else if \<not> existsSync fs filePath then Inr fs
      else case lstatSync fs filePath of
             Inl msg \<Rightarrow> Inr fs
           | Inr stats \<Rightarrow>
               if isSymbolicLink stats then Inr fs
               else (case unlinkSync fs filePath of Inl msg \<Rightarrow> Inr fs | Inr fs' \<Rightarrow> Inr fs'))"

text \<open>
  A path is inside the store when its resolved form lies under the resolved root.
\<close>

definition inside_root :: "string \<Rightarrow> string \<Rightarrow> bool" where
  "inside_root tempDir filePath = prefix (resolve_path tempDir) (resolve_path filePath)"

text \<open>
  A home directory for the examples: the store root with a sibling directory whose name
  extends the root's, and a private file outside the root.
\<close>

definition sample_home_files :: filesystem where
  "sample_home_files =
     [[''Users''] \<mapsto> Dir,
      [''Users'', ''u''] \<mapsto> Dir,
      [''Users'', ''u'', ''notes.txt''] \<mapsto> File ''private'' 420,
      [''Users'', ''u'', ''Library''] \<mapsto> Dir,
      [''Users'', ''u'', ''Library'', ''Application Support''] \<mapsto> Dir,
      [''Users'', ''u'', ''Library'', ''Application Support'', ''ulysses-mcp''] \<mapsto> Dir,
      [''Users'', ''u'', ''Library'', ''Application Support'', ''ulysses-mcp'', ''tmp''] \<mapsto> Dir,
      [''Users'', ''u'', ''Library'', ''Application Support'', ''ulysses-mcp'', ''tmp-old''] \<mapsto> Dir]"

section \<open>Callback correlator\<close>

text \<open>
  The state of the server process between two turns of the event loop: the two global
  maps of \<open>index.ts\<close>, the timers that are armed, the file system, and two logs that
  record what the process has done, namely every call of a promise's \<open>resolve\<close> or
  \<open>reject\<close> and every URL handed to \<open>open\<close>.

  \<open>setTimeout\<close> and \<open>setInterval\<close> return a handle; handles and promises are numbered
  from one counter. A \<open>CallbackState\<close> holds the \<open>resolve\<close> and \<open>reject\<close> of one
  promise, which the model names by the promise's number, and the two handles. An armed
  timer is the closure it will run: the timeout closure captured \<open>callbackId\<close> and the
  promise, the poll closure captured \<open>callbackId\<close>, the handle \<open>timeout\<close> and the
  promise, and knows its own handle \<open>pollInterval\<close> (\<open>timeout_h\<close> and \<open>interval_h\<close>
  below, apart from the fields of the same names).
\<close>

record callback_state =
  promise :: nat
  timeout :: nat
  pollInterval :: nat

datatype settlement = Resolved jsval | Rejected js_error

datatype timer = TimeoutTimer string nat | PollTimer string nat nat

record world =
  rateLimitState :: rate_state
  pendingCallbacks :: "string \<rightharpoonup> callback_state"
  timers :: "nat \<rightharpoonup> timer"
  nextHandle :: nat
  disk :: filesystem
  settled :: "(nat \<times> settlement) list"
  opened :: "string list"

definition initial_world :: "filesystem \<Rightarrow> world" where
  "initial_world fs =
     \<lparr>rateLimitState = Map.empty, pendingCallbacks = Map.empty, timers = Map.empty,
      nextHandle = 0, disk = fs, settled = [], opened = []\<rparr>"

text \<open>\<open>JSON.parse\<close> is a parameter: it returns the value or the message of its \<open>SyntaxError\<close>.\<close>

type_synonym parser = "string \<Rightarrow> string + jsval"

definition callbackFilePath :: "string \<Rightarrow> string" where
  "callbackFilePath callbackId = ''/tmp/ulysses-mcp-callback-'' @ callbackId @ ''.json''"

text \<open>\<open>clearTimeout\<close> and \<open>clearInterval\<close> disarm a handle; on an unknown handle they do nothing.\<close>

definition clear_timer :: "nat \<Rightarrow> world \<Rightarrow> world" where
  "clear_timer h w = w\<lparr>timers := (timers w)(h := None)\<rparr>"

definition delete_pending :: "string \<Rightarrow> world \<Rightarrow> world" where
  "delete_pending callbackId w = w\<lparr>pendingCallbacks := (pendingCallbacks w)(callbackId := None)\<rparr>"

definition settle :: "nat \<Rightarrow> settlement \<Rightarrow> world \<Rightarrow> world" where
  "settle p s w = w\<lparr>settled := settled w @ [(p, s)]\<rparr>"

text \<open>
  \<open>waitForCallback\<close> runs the promise's executor at once: it arms the two timers and
  registers the entry, overwriting an entry of the same id as \<open>Map.set\<close> does. It
  returns the promise.
\<close>

definition waitForCallback :: "string \<Rightarrow> world \<Rightarrow> nat \<times> world" where
  "waitForCallback callbackId w =
     (let p = nextHandle w;
          timeout_h = p + 1;
          interval_h = p + 2
      in (p, w\<lparr>timers := (timers w)(timeout_h \<mapsto> TimeoutTimer callbackId p,
                                      interval_h \<mapsto> PollTimer callbackId timeout_h p),
                pendingCallbacks := (pendingCallbacks w)(callbackId \<mapsto>
                    \<lparr>promise = p, timeout = timeout_h, pollInterval = interval_h\<rparr>),
                nextHandle := p + 3\<rparr>))"

definition timeout_message :: "string \<Rightarrow> string" where
  "timeout_message callbackId =
     ''Callback timeout for action: '' @ takeWhile (\<lambda>c. c \<noteq> CHR ''-'') callbackId @
     ''. The helper app may not be running or Ulysses may not have responded.'' @
     [CHR 0x0A, CHR 0x0A] @ ''Troubleshooting:'' @ [CHR 0x0A] @
     ''1. Ensure Ulysses is installed and running'' @ [CHR 0x0A] @
     ''2. Ensure the helper app is running (check /tmp/ulysses-mcp-helper.pid)'' @ [CHR 0x0A] @
     ''3. Check that Ulysses has permission to access x-callback-url'' @ [CHR 0x0A] @
     ''4. Try running: npm run build-helper to rebuild the helper app''"

text \<open>The body of the \<open>setTimeout\<close> callback.\<close>

definition timeout_handler :: "string \<Rightarrow> nat \<Rightarrow> world \<Rightarrow> world" where
  "timeout_handler callbackId p w =
     (let w1 = (case pendingCallbacks w callbackId of
                  None \<Rightarrow> w
                | Some callback \<Rightarrow>
                    delete_pending callbackId (clear_timer (pollInterval callback) w));
          w2 = (if existsSync (disk w1) (callbackFilePath callbackId)
                then (case unlinkSync (disk w1) (callbackFilePath callbackId) of
                        Inl msg \<Rightarrow> w1
                      | Inr fs \<Rightarrow> w1\<lparr>disk := fs\<rparr>)
                else w1)
      in settle p (Rejected (McpError InternalError (timeout_message callbackId))) w2)"

text \<open>The \<open>catch\<close> block of the poll callback, entered with the message of the error.\<close>

definition poll_catch :: "string \<Rightarrow> nat \<Rightarrow> nat \<Rightarrow> nat \<Rightarrow> string \<Rightarrow> world \<Rightarrow> world" where
  "poll_catch callbackId timeout_h interval_h p msg w =
     settle p (Rejected (McpError InternalError (''Failed to read callback data: '' @ msg)))
       (delete_pending callbackId (clear_timer interval_h (clear_timer timeout_h w)))"

text \<open>
  The body of the \<open>setInterval\<close> callback. Each statement that can throw inside the
  \<open>try\<close> leads to \<open>poll_catch\<close> with the state as the statements before it left it.
\<close>

definition poll_handler :: "parser \<Rightarrow> string \<Rightarrow> nat \<Rightarrow> nat \<Rightarrow> nat \<Rightarrow> world \<Rightarrow> world" where
  "poll_handler parse callbackId timeout_h interval_h p w =
     (if \<not> existsSync (disk w) (callbackFilePath callbackId) then w
      else case readFileSync (disk w) (callbackFilePath callbackId) of
        Inl msg \<Rightarrow> poll_catch callbackId timeout_h interval_h p msg w
      | Inr data \<Rightarrow>
         (case parse data of
            Inl msg \<Rightarrow> poll_catch callbackId timeout_h interval_h p msg w
          | Inr response \<Rightarrow>
             (let w1 = delete_pending callbackId (clear_timer interval_h (clear_timer timeout_h w));
                  w2 = (case unlinkSync (disk w1) (callbackFilePath callbackId) of
                          Inl msg \<Rightarrow> w1
                        | Inr fs \<Rightarrow> w1\<lparr>disk := fs\<rparr>)
              in case js_get response ''isError'' of
                   Inl msg \<Rightarrow> poll_catch callbackId timeout_h interval_h p msg w2
                 | Inr isError \<Rightarrow>
                    if truthy isError
                    then (case js_get response ''data'' of
                            Inl msg \<Rightarrow> poll_catch callbackId timeout_h interval_h p msg w2
                          | Inr data \<Rightarrow>
                             (case js_get data ''errorMessage'' of
                                Inl msg \<Rightarrow> poll_catch callbackId timeout_h interval_h p msg w2
                              | Inr m \<Rightarrow>
                                 (let errorMessage =
                                        (if truthy m then m else JStr ''Ulysses returned an error'')
                                  in case js_String errorMessage of
                                       Inl msg \<Rightarrow>
                                         poll_catch callbackId timeout_h interval_h p msg w2
                                     | Inr text \<Rightarrow> settle p (Rejected (JsError text)) w2)))
                    else (case js_get response ''data'' of
                            Inl msg \<Rightarrow> poll_catch callbackId timeout_h interval_h p msg w2
                          | Inr data \<Rightarrow> settle p (Resolved data) w2))))"

text \<open>
  The event loop runs the callback of an armed timer. A timeout is disarmed by firing;
  an interval stays armed. A handle that is not armed runs nothing.
\<close>

definition fire :: "parser \<Rightarrow> nat \<Rightarrow> world \<Rightarrow> world" where
  "fire parse h w =
     (case timers w h of
        None \<Rightarrow> w
      | Some (TimeoutTimer callbackId p) \<Rightarrow> timeout_handler callbackId p (clear_timer h w)
      | Some (PollTimer callbackId timeout_h p) \<Rightarrow> poll_handler parse callbackId timeout_h h p w)"

text \<open>
  What can happen between two observations: a timer fires, another request registers
  its wait, or the rest of the machine changes the file system.
\<close>

datatype event = Fire nat | Register string | SetDisk filesystem

fun step :: "parser \<Rightarrow> event \<Rightarrow> world \<Rightarrow> world" where
  "step parse (Fire h) w = fire parse h w"
| "step parse (Register callbackId) w = snd (waitForCallback callbackId w)"
| "step parse (SetDisk fs) w = w\<lparr>disk := fs\<rparr>"

fun run :: "parser \<Rightarrow> event list \<Rightarrow> world \<Rightarrow> world" where
  "run parse [] w = w"
| "run parse (e # es) w = run parse es (step parse e w)"

text \<open>
  Correlation ids are unique among the pending requests: a trace registers an id only
  while no request with that id is pending.
\<close>

fun unique_ids :: "parser \<Rightarrow> event list \<Rightarrow> world \<Rightarrow> bool" where
  "unique_ids parse [] w = True"
| "unique_ids parse (e # es) w =
     ((case e of Register callbackId \<Rightarrow> pendingCallbacks w callbackId = None | _ \<Rightarrow> True)
      \<and> unique_ids parse es (step parse e w))"

text \<open>
  The one transition of a pending request: its entry leaves the registry, both its
  handles are disarmed, and its promise receives one call of \<open>resolve\<close> or \<open>reject\<close>.
  The file system is as the handler left it.
\<close>

definition transition :: "string \<Rightarrow> callback_state \<Rightarrow> filesystem \<Rightarrow> settlement \<Rightarrow> world \<Rightarrow> world" where
  "transition callbackId callback fs s w =
     w\<lparr>pendingCallbacks := (pendingCallbacks w)(callbackId := None),
       timers := ((timers w)(timeout callback := None))(pollInterval callback := None),
       disk := fs,
       settled := settled w @ [(promise callback, s)]\<rparr>"

text \<open>
  The shape of the registry and the timers while requests are pending: an entry's
  handles are armed with its own closures and its promise has received no call; every
  armed timer belongs to the entry of its id; no promise has received two calls; and
  the counter is above everything in use.
\<close>

definition registry_ok :: "world \<Rightarrow> bool" where
  "registry_ok w \<longleftrightarrow>
     (\<forall>callbackId callback. pendingCallbacks w callbackId = Some callback \<longrightarrow>
        timers w (timeout callback) = Some (TimeoutTimer callbackId (promise callback))
        \<and> timers w (pollInterval callback) =
            Some (PollTimer callbackId (timeout callback) (promise callback))
        \<and> promise callback \<notin> fst ` set (settled w)
        \<and> promise callback < nextHandle w)
     \<and> (\<forall>h callbackId p. timers w h = Some (TimeoutTimer callbackId p) \<longrightarrow>
          (\<exists>callback. pendingCallbacks w callbackId = Some callback
             \<and> timeout callback = h \<and> promise callback = p))
     \<and> (\<forall>h callbackId t p. timers w h = Some (PollTimer callbackId t p) \<longrightarrow>
          (\<exists>callback. pendingCallbacks w callbackId = Some callback
             \<and> pollInterval callback = h \<and> timeout callback = t \<and> promise callback = p))
     \<and> (\<forall>i j ci cj. pendingCallbacks w i = Some ci \<and> pendingCallbacks w j = Some cj
           \<and> promise ci = promise cj \<longrightarrow> i = j)
     \<and> distinct (map fst (settled w))
     \<and> (\<forall>h. timers w h \<noteq> None \<longrightarrow> h < nextHandle w)
     \<and> (\<forall>p \<in> fst ` set (settled w). p < nextHandle w)"

section \<open>Command dispatcher\<close>

text \<open>
  \<open>encodeURIComponent\<close>: the unreserved characters stay, every other code unit is
  replaced by the percent-encoded bytes of its UTF-8 form (one byte below 128, two
  bytes from 128 to 255).
\<close>

definition hex_digit :: "nat \<Rightarrow> char" where
  "hex_digit d = ''0123456789ABCDEF'' ! d"

definition percent_byte :: "nat \<Rightarrow> string" where
  "percent_byte b = [CHR ''%'', hex_digit (b div 16), hex_digit (b mod 16)]"

definition uri_unreserved :: "char \<Rightarrow> bool" where
  "uri_unreserved c \<longleftrightarrow>
     c \<in> set (''ABCDEFGHIJKLMNOPQRSTUVWXYZabcdefghijklmnopqrstuvwxyz0123456789-_.!~*()''
              @ [CHR 0x27])"

definition encode_unit :: "char \<Rightarrow> string" where
  "encode_unit c =
     (if uri_unreserved c then [c]
      else let n = (of_char c :: nat)
           in if n < 128 then percent_byte n
              else percent_byte (192 + n div 64) @ percent_byte (128 + n mod 64))"

definition encodeParam :: "string \<Rightarrow> string" where
  "encodeParam v = concat (map encode_unit v)"

fun join_with :: "string \<Rightarrow> string list \<Rightarrow> string" where
  "join_with sep [] = ''''"
| "join_with sep [x] = x"
| "join_with sep (x # y # ys) = x @ sep @ join_with sep (y # ys)"

text \<open>
  \<open>params\<close> is a record of strings; the list holds its entries in the
  order \<open>Object.entries\<close> yields them.
\<close>

definition param_string :: "(string \<times> string) list \<Rightarrow> string" where
  "param_string params =
     join_with ''&'' (map (\<lambda>(key, v). key @ ''='' @ encodeParam v) params)"

definition callback_url :: "string \<Rightarrow> string \<Rightarrow> (string \<times> string) list \<Rightarrow> string" where
  "callback_url action callbackId params =
     (let successUrl = encodeParam (''ulysses-mcp-callback://x-success?callbackId='' @ callbackId);
          errorUrl = encodeParam (''ulysses-mcp-callback://x-error?callbackId='' @ callbackId);
          paramString = param_string params
      in ''ulysses://x-callback-url/'' @ action @ ''?x-success='' @ successUrl @
         ''&x-error='' @ errorUrl @ (if paramString \<noteq> '''' then ''&'' @ paramString else ''''))"

definition plain_url :: "string \<Rightarrow> (string \<times> string) list \<Rightarrow> string" where
  "plain_url action params =
     (let paramString = param_string params
      in ''ulysses://x-callback-url/'' @ action @
         (if paramString \<noteq> '''' then ''?'' @ paramString else ''''))"

text \<open>
  What one call of \<open>executeUlyssesCommand\<close> takes from outside the process: the clock
  at the rate check, the outcome of \<open>ensureHelperAppRunning\<close> (the receiver supervisor,
  which the claims do not concern: \<open>None\<close> when it resolves, the \<open>McpError\<close> it throws
  otherwise), the clock and the random suffix that go into the correlation id, and the
  outcome of \<open>execFile('open', [url])\<close> (\<open>None\<close> when it resolves, the message of its
  error otherwise).
\<close>

record env =
  rate_clock :: int
  helper_failure :: "js_error option"
  id_clock :: int
  id_random :: string
  open_failure :: "string option"

text \<open>
  The function returns a string: a fixed text, or \<open>JSON.stringify(result, null, 2)\<close>,
  which the model keeps as the value that is serialised.
\<close>

datatype exec_value = Text string | Stringified jsval

text \<open>
  The call up to the point where it either has thrown, has returned, or awaits the
  callback promise.
\<close>

datatype exec_outcome = Threw js_error | Returned exec_value | Awaiting nat

definition new_callbackId :: "env \<Rightarrow> string \<Rightarrow> string" where
  "new_callbackId e action = action @ ''-'' @ show_int (id_clock e) @ ''-'' @ id_random e"

definition open_url :: "string \<Rightarrow> world \<Rightarrow> world" where
  "open_url url w = w\<lparr>opened := opened w @ [url]\<rparr>"

definition dispatch_error :: "string \<Rightarrow> js_error" where
  "dispatch_error msg = McpError InternalError (''MCP error -32603: '' @ msg)"

definition executeUlyssesCommand ::
    "env \<Rightarrow> string \<Rightarrow> (string \<times> string) list \<Rightarrow> world \<Rightarrow> exec_outcome \<times> world" where
  "executeUlyssesCommand e action params w =
     (if action \<notin> set ALLOWED_ACTIONS
      then (Threw (McpError InvalidParams (''Invalid action: '' @ action)), w)
      else case checkRateLimit action (rate_clock e) (rateLimitState w) of
        (Inl err, st) \<Rightarrow> (Threw err, w\<lparr>rateLimitState := st\<rparr>)
      | (Inr u, st) \<Rightarrow>
         (let w1 = w\<lparr>rateLimitState := st\<rparr>
          in if action \<in> set CALLBACK_ACTIONS
             then (case helper_failure e of
                     Some err \<Rightarrow> (Threw err, w1)
                   | None \<Rightarrow>
                      (let callbackId = new_callbackId e action;
                           (callbackPromise, w2) = waitForCallback callbackId w1;
                           w3 = open_url (callback_url action callbackId params) w2
                       in case open_failure e of
                            Some msg \<Rightarrow> (Threw (dispatch_error msg), w3)
                          | None \<Rightarrow> (Awaiting callbackPromise, w3)))
             else (let w3 = open_url (plain_url action params) w1
                   in case open_failure e of
                        Some msg \<Rightarrow> (Threw (dispatch_error msg), w3)
                      | None \<Rightarrow> (Returned (Text (''Successfully executed '' @ action)), w3))))"

text \<open>
  The rest of the call once the awaited promise is settled: the value is serialised; a
  rejection with an \<open>McpError\<close> is rethrown, any other error is wrapped.
\<close>

fun await_result :: "settlement \<Rightarrow> js_error + exec_value" where
  "await_result (Resolved v) = Inr (Stringified v)"
| "await_result (Rejected (McpError code msg)) = Inl (McpError code msg)"
| "await_result (Rejected (JsError msg)) = Inl (dispatch_error msg)"

section \<open>Examples\<close>

text \<open>
  \<open>JSON.parse\<close> on the two artifact texts of the examples: a success artifact, and a
  text that is not JSON. On every other text this stand-in reports a syntax error,
  which no statement below relies on.
\<close>

definition sample_parse :: parser where
  \<open>sample_parse text =
     (if text = ''{"callbackId":"get-item-1000-k3j9x0q2a","isError":false,"data":{"title":"Notes"}}''
      then Inr (JObj [(''callbackId'', JStr ''get-item-1000-k3j9x0q2a''),
                      (''isError'', JBool False),
                      (''data'', JObj [(''title'', JStr ''Notes'')])])
      else Inl ''Unexpected token o in JSON at position 1'')\<close>

definition sample_env :: env where
  "sample_env =
     \<lparr>rate_clock = 1000, helper_failure = None, id_clock = 1000,
      id_random = ''k3j9x0q2a'', open_failure = None\<rparr>"

text \<open>A \<open>/tmp\<close> that holds the success artifact of the request above.\<close>

definition artifact_disk :: filesystem where
  \<open>artifact_disk =
     [[''tmp''] \<mapsto> Dir,
      [''tmp'', ''ulysses-mcp-callback-get-item-1000-k3j9x0q2a.json''] \<mapsto>
        File ''{"callbackId":"get-item-1000-k3j9x0q2a","isError":false,"data":{"title":"Notes"}}'' 420]\<close>

text \<open>
  A \<open>/tmp\<close> in which the artifact's name is a symbolic link to a file of the same
  content elsewhere.
\<close>

definition symlink_disk :: filesystem where
  \<open>symlink_disk =
     [[''tmp''] \<mapsto> Dir,
      [''tmp'', ''ulysses-mcp-callback-get-item-1000-k3j9x0q2a.json''] \<mapsto>
        Symlink ''/tmp/planted.json'',
      [''tmp'', ''planted.json''] \<mapsto>
        File ''{"callbackId":"get-item-1000-k3j9x0q2a","isError":false,"data":{"title":"Notes"}}'' 420]\<close>

text \<open>A \<open>/tmp\<close> in which the artifact is not JSON.\<close>

definition corrupt_disk :: filesystem where
  "corrupt_disk =
     [[''tmp''] \<mapsto> Dir,
      [''tmp'', ''ulysses-mcp-callback-get-item-1000-k3j9x0q2a.json''] \<mapsto> File ''not json'' 420]"

section \<open>Properties of the rate limiter\<close>

lemma checkRateLimit_nondestructive:
  "action \<notin> set DESTRUCTIVE_ACTIONS \<Longrightarrow> checkRateLimit action now st = (Inr (), st)"
  by (simp add: checkRateLimit_def)

lemma rate_calls_same_window:
  assumes "action \<in> set DESTRUCTIVE_ACTIONS"
  shows "st action = Some \<lparr>count = c, resetTime = r\<rparr> \<Longrightarrow> \<forall>t \<in> set ts. t \<le> r \<Longrightarrow>
         c + int (length ts) \<le> MAX_DESTRUCTIVE_OPS_PER_MINUTE \<Longrightarrow>
         rate_calls (map (Pair action) ts) st =
           (replicate (length ts) (Inr ()),
            st(action \<mapsto> \<lparr>count = c + int (length ts), resetTime = r\<rparr>))"
proof (induction ts arbitrary: st c)
  case Nil
  then show ?case by (simp add: map_upd_triv)
next
  case (Cons t ts)
  have step: "checkRateLimit action t st =
          (Inr (), st(action \<mapsto> \<lparr>count = c + 1, resetTime = r\<rparr>))"
    using assms Cons.prems by (simp add: checkRateLimit_def)
  have "rate_calls (map (Pair action) ts) (st(action \<mapsto> \<lparr>count = c + 1, resetTime = r\<rparr>)) =
          (replicate (length ts) (Inr ()),
           (st(action \<mapsto> \<lparr>count = c + 1, resetTime = r\<rparr>))
             (action \<mapsto> \<lparr>count = (c + 1) + int (length ts), resetTime = r\<rparr>))"
    using Cons.prems by (intro Cons.IH) simp_all
  then have rest: "rate_calls (map (Pair action) ts) (st(action \<mapsto> \<lparr>count = c + 1, resetTime = r\<rparr>)) =
          (replicate (length ts) (Inr ()),
           st(action \<mapsto> \<lparr>count = c + int (length (t # ts)), resetTime = r\<rparr>))"
    by (simp add: add.assoc)
  have "rate_calls (map (Pair action) (t # ts)) st =
          (Inr () # replicate (length ts) (Inr ()),
           st(action \<mapsto> \<lparr>count = c + int (length (t # ts)), resetTime = r\<rparr>))"
    unfolding list.map rate_calls.simps step rest Let_def prod.case ..
  then show ?case by (simp add: fun_upd_def)
qed

lemma checkRateLimit_fresh:
  assumes "action \<in> set DESTRUCTIVE_ACTIONS"
    and "st action = None \<or> (\<exists>e. st action = Some e \<and> resetTime e < now)"
  shows "checkRateLimit action now st =
           (Inr (), st(action \<mapsto> \<lparr>count = 1, resetTime = now + RATE_LIMIT_WINDOW_MS\<rparr>))"
  using assms by (auto simp: checkRateLimit_def)

lemma checkRateLimit_exhausted:
  assumes "action \<in> set DESTRUCTIVE_ACTIONS"
    and "st action = Some e" and "now \<le> resetTime e"
    and "MAX_DESTRUCTIVE_OPS_PER_MINUTE \<le> count e"
  shows "checkRateLimit action now st =
           (Inl (McpError InvalidRequest
              (''Rate limit exceeded for '' @ action @ ''. Please wait before trying again.'')), st)"
  using assms by (simp add: checkRateLimit_def)

text \<open>
  C6. For a destructive action, the first call in a fresh window (no entry for the action,
  or an entry whose reset time has passed) succeeds and leaves the entry
  \<open>count = 1\<close>, \<open>resetTime = now + 60000\<close>. Nine more calls inside the window succeed,
  the count reaching 10, and the eleventh call inside the window throws the rate-limit
  error and leaves the map exactly as the tenth call left it. A call for an action that
  is not destructive returns with the map untouched.
\<close>

theorem rate_limit_eleventh_call:
  assumes destructive: "action \<in> set DESTRUCTIVE_ACTIONS"
    and fresh: "st action = None \<or> (\<exists>e. st action = Some e \<and> resetTime e < t1)"
    and nine: "length ts = 9"
    and window: "\<forall>t \<in> set (ts @ [t11]). t \<le> t1 + 60000"
  shows "checkRateLimit action t1 st =
           (Inr (), st(action \<mapsto> \<lparr>count = 1, resetTime = t1 + 60000\<rparr>))
       \<and> rate_calls (map (Pair action) (t1 # ts)) st =
           (replicate 10 (Inr ()), st(action \<mapsto> \<lparr>count = 10, resetTime = t1 + 60000\<rparr>))
       \<and> checkRateLimit action t11 (st(action \<mapsto> \<lparr>count = 10, resetTime = t1 + 60000\<rparr>)) =
           (Inl (McpError InvalidRequest
              (''Rate limit exceeded for '' @ action @ ''. Please wait before trying again.'')),
            st(action \<mapsto> \<lparr>count = 10, resetTime = t1 + 60000\<rparr>))
       \<and> (\<forall>other now s. other \<notin> set DESTRUCTIVE_ACTIONS \<longrightarrow>
            checkRateLimit other now s = (Inr (), s))"
proof -
  let ?s1 = "st(action \<mapsto> \<lparr>count = 1, resetTime = t1 + 60000\<rparr>)"
  let ?s10 = "st(action \<mapsto> \<lparr>count = 10, resetTime = t1 + 60000\<rparr>)"
  have first: "checkRateLimit action t1 st = (Inr (), ?s1)"
    using checkRateLimit_fresh [of action st t1] destructive fresh
    by (simp add: RATE_LIMIT_WINDOW_MS_def)
  have "rate_calls (map (Pair action) ts) ?s1 =
          (replicate (length ts) (Inr ()),
           ?s1(action \<mapsto> \<lparr>count = 1 + int (length ts), resetTime = t1 + 60000\<rparr>))"
    using window nine
    by (intro rate_calls_same_window [OF destructive])
       (simp_all add: MAX_DESTRUCTIVE_OPS_PER_MINUTE_def)
  then have rest: "rate_calls (map (Pair action) ts) ?s1 = (replicate 9 (Inr ()), ?s10)"
    using nine by simp
  have ten: "rate_calls (map (Pair action) (t1 # ts)) st = (replicate 10 (Inr ()), ?s10)"
    using first rest by (simp add: numeral_eq_Suc)
  have eleventh: "checkRateLimit action t11 ?s10 =
           (Inl (McpError InvalidRequest
              (''Rate limit exceeded for '' @ action @ ''. Please wait before trying again.'')), ?s10)"
    using window
    by (intro checkRateLimit_exhausted [OF destructive, where e = "\<lparr>count = 10, resetTime = t1 + 60000\<rparr>"])
       (simp_all add: MAX_DESTRUCTIVE_OPS_PER_MINUTE_def)
  show ?thesis
    using first ten eleventh checkRateLimit_nondestructive by blast
qed

theorem rate_limit_eleventh_call_witness:
  "''trash'' \<in> set DESTRUCTIVE_ACTIONS
   \<and> (Map.empty :: rate_state) ''trash'' = None
   \<and> length [1001, 1002, 1003, 1004, 1005, 1006, 1007, 1008, 1009 :: int] = 9
   \<and> list_all (\<lambda>t. t \<le> (1000::int) + 60000)
        ([1001, 1002, 1003, 1004, 1005, 1006, 1007, 1008, 1009] @ [61000])
   \<and> rate_calls (map (Pair ''trash'') (1000 # [1001, 1002, 1003, 1004, 1005, 1006, 1007, 1008, 1009])) Map.empty =
       (replicate 10 (Inr ()), [''trash'' \<mapsto> \<lparr>count = 10, resetTime = 61000\<rparr>])
   \<and> checkRateLimit ''trash'' 61000 [''trash'' \<mapsto> \<lparr>count = 10, resetTime = 61000\<rparr>] =
       (Inl (McpError InvalidRequest ''Rate limit exceeded for trash. Please wait before trying again.''),
        [''trash'' \<mapsto> \<lparr>count = 10, resetTime = 61000\<rparr>])
   \<and> checkRateLimit ''open'' 5 Map.empty = (Inr (), Map.empty)"
proof -
  have d: "''trash'' \<in> set DESTRUCTIVE_ACTIONS" by (simp add: DESTRUCTIVE_ACTIONS_def)
  have f: "(Map.empty :: rate_state) ''trash'' = None \<or> (\<exists>e. (Map.empty :: rate_state) ''trash'' = Some e \<and> resetTime e < 1000)" by simp
  have n: "length [1001, 1002, 1003, 1004, 1005, 1006, 1007, 1008, 1009 :: int] = 9" by simp
  have w: "\<forall>t \<in> set ([1001, 1002, 1003, 1004, 1005, 1006, 1007, 1008, 1009] @ [61000]). t \<le> (1000::int) + 60000" by simp
  have o: "''open'' \<notin> set DESTRUCTIVE_ACTIONS" by (simp add: DESTRUCTIVE_ACTIONS_def)
  show ?thesis
    using rate_limit_eleventh_call [OF d f n w] d o
    by (simp add: checkRateLimit_def MAX_DESTRUCTIVE_OPS_PER_MINUTE_def RATE_LIMIT_WINDOW_MS_def)
qed

lemma checkRateLimit_count_bounded:
  "count_bounded st \<Longrightarrow> count_bounded (snd (checkRateLimit action now st))"
  unfolding count_bounded_def checkRateLimit_def MAX_DESTRUCTIVE_OPS_PER_MINUTE_def
  by (fastforce split: option.splits if_splits)

lemma rate_calls_count_bounded:
  "count_bounded st \<Longrightarrow> count_bounded (snd (rate_calls cs st))"
proof (induction cs arbitrary: st)
  case Nil
  then show ?case by simp
next
  case (Cons c cs)
  obtain action now where c: "c = (action, now)" by (cases c)
  have "count_bounded (snd (checkRateLimit action now st))"
    using Cons.prems by (rule checkRateLimit_count_bounded)
  then have "count_bounded (snd (rate_calls cs (snd (checkRateLimit action now st))))"
    by (rule Cons.IH)
  then show ?case by (simp add: c split_beta)
qed

lemma checkRateLimit_same_window:
  assumes "action \<in> set DESTRUCTIVE_ACTIONS" and "st action = Some e" and "now \<le> resetTime e"
  shows "checkRateLimit action now st =
           (if count e < MAX_DESTRUCTIVE_OPS_PER_MINUTE
            then (Inr (), st(action \<mapsto> e\<lparr>count := count e + 1\<rparr>))
            else (Inl (McpError InvalidRequest
                    (''Rate limit exceeded for '' @ action @
                     ''. Please wait before trying again.'')), st))"
  using assms by (simp add: checkRateLimit_def)

text \<open>
  C7, as amended. Starting from the empty map of process start, after any sequence of
  calls every entry has a count between 1 and the ceiling. A call for a destructive
  action made strictly after the reset time replaces the entry with a fresh window. A
  call made at or before the reset time, the instant of equality included, stays in the
  old window: the count is incremented while it is below the ceiling, otherwise the call
  throws and the map is unchanged.
\<close>

theorem rate_window_replaced_strictly_after_reset:
  "(\<forall>a e. snd (rate_calls cs Map.empty) a = Some e \<longrightarrow>
        1 \<le> count e \<and> count e \<le> MAX_DESTRUCTIVE_OPS_PER_MINUTE)
   \<and> (\<forall>action st e now.
        action \<in> set DESTRUCTIVE_ACTIONS \<and> st action = Some e \<and> resetTime e < now \<longrightarrow>
        checkRateLimit action now st =
          (Inr (), st(action \<mapsto> \<lparr>count = 1, resetTime = now + RATE_LIMIT_WINDOW_MS\<rparr>)))
   \<and> (\<forall>action st e now.
        action \<in> set DESTRUCTIVE_ACTIONS \<and> st action = Some e \<and> now \<le> resetTime e \<longrightarrow>
        checkRateLimit action now st =
          (if count e < MAX_DESTRUCTIVE_OPS_PER_MINUTE
           then (Inr (), st(action \<mapsto> e\<lparr>count := count e + 1\<rparr>))
           else (Inl (McpError InvalidRequest
                   (''Rate limit exceeded for '' @ action @
                    ''. Please wait before trying again.'')), st)))"
proof (intro conjI allI impI)
  fix a and e :: rate_entry
  assume "snd (rate_calls cs Map.empty) a = Some e"
  moreover have "count_bounded (snd (rate_calls cs Map.empty))"
    by (rule rate_calls_count_bounded) (simp add: count_bounded_def)
  ultimately show "1 \<le> count e" and "count e \<le> MAX_DESTRUCTIVE_OPS_PER_MINUTE"
    by (auto simp: count_bounded_def)
next
  fix action and st :: rate_state and e :: rate_entry and now
  assume "action \<in> set DESTRUCTIVE_ACTIONS \<and> st action = Some e \<and> resetTime e < now"
  then show "checkRateLimit action now st =
          (Inr (), st(action \<mapsto> \<lparr>count = 1, resetTime = now + RATE_LIMIT_WINDOW_MS\<rparr>))"
    using checkRateLimit_fresh [of action st now] by blast
next
  fix action and st :: rate_state and e :: rate_entry and now
  assume "action \<in> set DESTRUCTIVE_ACTIONS \<and> st action = Some e \<and> now \<le> resetTime e"
  then show "checkRateLimit action now st =
          (if count e < MAX_DESTRUCTIVE_OPS_PER_MINUTE
           then (Inr (), st(action \<mapsto> e\<lparr>count := count e + 1\<rparr>))
           else (Inl (McpError InvalidRequest
                   (''Rate limit exceeded for '' @ action @
                    ''. Please wait before trying again.'')), st))"
    using checkRateLimit_same_window [of action st e now] by blast
qed

theorem rate_window_replaced_strictly_after_reset_witness:
  "snd (rate_calls [(''trash'', 1000), (''trash'', 61000), (''trash'', 61001)] Map.empty) ''trash''
     = Some \<lparr>count = 1, resetTime = 121001\<rparr>
   \<and> 1 \<le> count \<lparr>count = 1, resetTime = 121001\<rparr>
   \<and> count \<lparr>count = 1, resetTime = 121001\<rparr> \<le> MAX_DESTRUCTIVE_OPS_PER_MINUTE
   \<and> ''trash'' \<in> set DESTRUCTIVE_ACTIONS
   \<and> checkRateLimit ''trash'' 61001 [''trash'' \<mapsto> \<lparr>count = 2, resetTime = 61000\<rparr>] =
       (Inr (), [''trash'' \<mapsto> \<lparr>count = 1, resetTime = 121001\<rparr>])
   \<and> checkRateLimit ''trash'' 61000 [''trash'' \<mapsto> \<lparr>count = 1, resetTime = 61000\<rparr>] =
       (Inr (), [''trash'' \<mapsto> \<lparr>count = 2, resetTime = 61000\<rparr>])"
proof -
  have d: "''trash'' \<in> set DESTRUCTIVE_ACTIONS" by (simp add: DESTRUCTIVE_ACTIONS_def)
  have r: "snd (rate_calls [(''trash'', 1000), (''trash'', 61000), (''trash'', 61001)] Map.empty) ''trash''
     = Some \<lparr>count = 1, resetTime = 121001\<rparr>"
    using d by (simp add: checkRateLimit_def RATE_LIMIT_WINDOW_MS_def MAX_DESTRUCTIVE_OPS_PER_MINUTE_def)
  note T = rate_window_replaced_strictly_after_reset
             [of "[(''trash'', 1000), (''trash'', 61000), (''trash'', 61001)]"]
  have b: "1 \<le> count \<lparr>count = 1, resetTime = 121001\<rparr>
     \<and> count \<lparr>count = 1, resetTime = 121001\<rparr> \<le> MAX_DESTRUCTIVE_OPS_PER_MINUTE"
    using T r by blast
  have fresh: "checkRateLimit ''trash'' 61001 [''trash'' \<mapsto> \<lparr>count = 2, resetTime = 61000\<rparr>] =
       (Inr (), [''trash'' \<mapsto> \<lparr>count = 1, resetTime = 121001\<rparr>])"
    using T [THEN conjunct2, THEN conjunct1, rule_format,
             of "''trash''" "[''trash'' \<mapsto> \<lparr>count = 2, resetTime = 61000\<rparr>]"
                "\<lparr>count = 2, resetTime = 61000\<rparr>" 61001] d
    by (simp add: RATE_LIMIT_WINDOW_MS_def)
  have same: "checkRateLimit ''trash'' 61000 [''trash'' \<mapsto> \<lparr>count = 1, resetTime = 61000\<rparr>] =
       (Inr (), [''trash'' \<mapsto> \<lparr>count = 2, resetTime = 61000\<rparr>])"
    using T [THEN conjunct2, THEN conjunct2, rule_format,
             of "''trash''" "[''trash'' \<mapsto> \<lparr>count = 1, resetTime = 61000\<rparr>]"
                "\<lparr>count = 1, resetTime = 61000\<rparr>" 61000] d
    by (simp add: MAX_DESTRUCTIVE_OPS_PER_MINUTE_def)
  show ?thesis using r b d fresh same by blast
qed

text \<open>
  The claim C7 as written, with replacement at \<open>now = resetTime\<close>, fails: a first call at
  1000 opens a window that resets at 61000, and a second call at exactly 61000 is
  counted in that window instead of opening a new one.
\<close>

theorem rate_window_at_reset_instant_counterexample:
  "snd (rate_calls [(''trash'', 1000), (''trash'', 61000)] Map.empty) ''trash''
     = Some \<lparr>count = 2, resetTime = 61000\<rparr>
   \<and> snd (rate_calls [(''trash'', 1000), (''trash'', 61000)] Map.empty) ''trash''
     \<noteq> Some \<lparr>count = 1, resetTime = 61000 + RATE_LIMIT_WINDOW_MS\<rparr>"
  by (simp add: checkRateLimit_def DESTRUCTIVE_ACTIONS_def RATE_LIMIT_WINDOW_MS_def
        MAX_DESTRUCTIVE_OPS_PER_MINUTE_def)

section \<open>Properties of parameter validation\<close>

lemma js_String_error:
  "js_String v = Inl e \<Longrightarrow> e = ''Cannot convert object to primitive value''"
  "js_join vs = Inl e \<Longrightarrow> e = ''Cannot convert object to primitive value''"
  by (induction v and vs rule: js_String_js_join.induct) (auto split: sum.splits if_splits)

lemma js_String_coercible:
  "(\<exists>s. js_String v = Inr s) \<longleftrightarrow> coercible v"
  "(\<exists>s. js_join vs = Inr s) \<longleftrightarrow> coercible_all vs"
  by (induction v and vs rule: js_String_js_join.induct) (auto split: sum.splits)

text \<open>
  C10, as amended. The number 0, the boolean \<open>false\<close> and an object without properties
  pass as \<open>0\<close>, \<open>false\<close> and \<open>[object Object]\<close>. \<open>undefined\<close> and \<open>null\<close> are
  rejected as missing. Every other value that \<open>String\<close> can convert is accepted as its
  trimmed string form, unless that is empty, in which case it is rejected as empty.
  \<open>String\<close> converts exactly the values in which no object reached by the conversion
  has an own property \<open>toString\<close>; on the others it throws a \<open>TypeError\<close>, which
  \<open>validateRequired\<close> lets through.
\<close>

theorem validateRequired_coerces:
  "validateRequired (JNum 0) f = Inr ''0''
   \<and> validateRequired (JBool False) f = Inr ''false''
   \<and> validateRequired (JObj []) f = Inr ''[object Object]''
   \<and> (\<forall>v. v = JUndefined \<or> v = JNull \<longrightarrow>
          validateRequired v f = Inl (McpError InvalidParams (f @ '' is required'')))
   \<and> (\<forall>v s. v \<noteq> JUndefined \<and> v \<noteq> JNull \<and> js_String v = Inr s \<longrightarrow>
          validateRequired v f =
            (if trim s = '''' then Inl (McpError InvalidParams (f @ '' cannot be empty''))
             else Inr (trim s)))
   \<and> (\<forall>v. v \<noteq> JUndefined \<and> v \<noteq> JNull \<longrightarrow>
          ((\<exists>s. js_String v = Inr s) \<longleftrightarrow> coercible v))
   \<and> (\<forall>v. \<not> coercible v \<longrightarrow>
          validateRequired v f = Inl (JsError ''Cannot convert object to primitive value''))"
proof (intro conjI allI impI)
  show "validateRequired (JNum 0) f = Inr ''0''"
    by (simp add: validateRequired_def show_int_def digits_of.simps digit_char_def trim_def
          is_js_space_def)
  show "validateRequired (JBool False) f = Inr ''false''"
    by (simp add: validateRequired_def trim_def is_js_space_def)
  show "validateRequired (JObj []) f = Inr ''[object Object]''"
    by (simp add: validateRequired_def trim_def is_js_space_def)
next
  fix v assume "v = JUndefined \<or> v = JNull"
  then show "validateRequired v f = Inl (McpError InvalidParams (f @ '' is required''))"
    by (auto simp: validateRequired_def)
next
  fix v s assume "v \<noteq> JUndefined \<and> v \<noteq> JNull \<and> js_String v = Inr s"
  then show "validateRequired v f =
            (if trim s = '''' then Inl (McpError InvalidParams (f @ '' cannot be empty''))
             else Inr (trim s))"
    by (simp add: validateRequired_def Let_def)
next
  fix v show "(\<exists>s. js_String v = Inr s) \<longleftrightarrow> coercible v"
    by (rule js_String_coercible)
next
  fix v assume nc: "\<not> coercible v"
  then have ne: "v \<noteq> JUndefined" "v \<noteq> JNull" by auto
  from nc have "\<nexists>s. js_String v = Inr s" by (simp add: js_String_coercible)
  then obtain e where e: "js_String v = Inl e" by (cases "js_String v") auto
  then have "e = ''Cannot convert object to primitive value''"
    by (rule js_String_error)
  with e ne show "validateRequired v f = Inl (JsError ''Cannot convert object to primitive value'')"
    by (simp add: validateRequired_def)
qed

theorem validateRequired_coerces_witness:
  "validateRequired (JNum 0) ''id'' = Inr ''0''
   \<and> validateRequired JNull ''id'' = Inl (McpError InvalidParams ''id is required'')
   \<and> js_String (JArr [JNum 12, JStr '' x '']) = Inr ''12, x ''
   \<and> validateRequired (JArr [JNum 12, JStr '' x '']) ''id'' = Inr ''12, x''
   \<and> js_String (JArr [JNull]) = Inr ''''
   \<and> validateRequired (JArr [JNull]) ''id'' = Inl (McpError InvalidParams ''id cannot be empty'')
   \<and> coercible (JArr [JNull])
   \<and> \<not> coercible (JArr [JObj [(''toString'', JNull)]])
   \<and> validateRequired (JArr [JObj [(''toString'', JNull)]]) ''id'' =
       Inl (JsError ''Cannot convert object to primitive value'')"
  using validateRequired_coerces [of "''id''"]
  by (simp add: validateRequired_def show_int_def digits_of.simps digit_char_def trim_def
          is_js_space_def)

text \<open>
  The claim C10 as written, with every defined, non-null value accepted, fails on the
  parsed object \<open>{"toString": 0}\<close>: it is neither accepted nor rejected by one of the
  two checks; the coercion throws.
\<close>

theorem validateRequired_own_toString_counterexample:
  "JObj [(''toString'', JNum 0)] \<noteq> JUndefined
   \<and> JObj [(''toString'', JNum 0)] \<noteq> JNull
   \<and> validateRequired (JObj [(''toString'', JNum 0)]) ''text'' =
       Inl (JsError ''Cannot convert object to primitive value'')"
  by (simp add: validateRequired_def)

section \<open>Properties of the secure store\<close>

lemma resolve_escape:
  "resolve_path (tempDir_of ''/Users/u'' @ ''/../../../../notes.txt'') = [''Users'', ''u'', ''notes.txt'']"
  by (simp add: resolve_path_def resolve_from_def tempDir_of_def)

lemma resolve_sibling:
  "resolve_path (tempDir_of ''/Users/u'' @ ''-old/x.json'') =
     [''Users'', ''u'', ''Library'', ''Application Support'', ''ulysses-mcp'', ''tmp-old'', ''x.json'']"
  by (simp add: resolve_path_def resolve_from_def tempDir_of_def)

lemma resolve_root:
  "resolve_path (tempDir_of ''/Users/u'') =
     [''Users'', ''u'', ''Library'', ''Application Support'', ''ulysses-mcp'', ''tmp'']"
  by (simp add: resolve_path_def resolve_from_def tempDir_of_def)

text \<open>
  C3 fails on the code. The check is on the text of the path, so a path that begins with
  the root's text and leaves the root through \<open>..\<close> segments passes it: \<open>readSecure\<close>
  returns the content of a file outside the root, \<open>writeSecure\<close> overwrites it and
  \<open>deleteSecure\<close> removes it. A path into a sibling directory whose name begins with
  the root's name passes as well, and \<open>writeSecure\<close> creates a file there.
\<close>

theorem store_prefix_check_escapes:
  "prefix (tempDir_of ''/Users/u'') (tempDir_of ''/Users/u'' @ ''/../../../../notes.txt'')
   \<and> \<not> inside_root (tempDir_of ''/Users/u'') (tempDir_of ''/Users/u'' @ ''/../../../../notes.txt'')
   \<and> readSecure (tempDir_of ''/Users/u'') (tempDir_of ''/Users/u'' @ ''/../../../../notes.txt'')
         sample_home_files = Inr ''private''
   \<and> writeSecure (tempDir_of ''/Users/u'') (tempDir_of ''/Users/u'' @ ''/../../../../notes.txt'')
         ''x'' sample_home_files
       = Inr (sample_home_files([''Users'', ''u'', ''notes.txt''] \<mapsto> File ''x'' 420))
   \<and> deleteSecure (tempDir_of ''/Users/u'') (tempDir_of ''/Users/u'' @ ''/../../../../notes.txt'')
         sample_home_files
       = Inr (sample_home_files([''Users'', ''u'', ''notes.txt''] := None))
   \<and> prefix (tempDir_of ''/Users/u'') (tempDir_of ''/Users/u'' @ ''-old/x.json'')
   \<and> \<not> inside_root (tempDir_of ''/Users/u'') (tempDir_of ''/Users/u'' @ ''-old/x.json'')
   \<and> writeSecure (tempDir_of ''/Users/u'') (tempDir_of ''/Users/u'' @ ''-old/x.json'')
         ''x'' sample_home_files
       = Inr (sample_home_files
               ([''Users'', ''u'', ''Library'', ''Application Support'', ''ulysses-mcp'',
                 ''tmp-old'', ''x.json''] \<mapsto> File ''x'' MODE_0600))"
  by (simp add: inside_root_def resolve_escape resolve_sibling resolve_root
        writeSecure_def readSecure_def deleteSecure_def
        writeFileSync_def readFileSync_def unlinkSync_def lstatSync_def existsSync_def
        MAXSYMLINKS_def node_at_def sample_home_files_def eval_nat_numeral)

section \<open>Properties of the callback correlator\<close>

text \<open>
  Every way out of a handler that settles the promise leaves the state that
  \<open>transition\<close> describes.
\<close>

lemma clear_both_twice:
  "(((f(a := None))(b := None))(a := None))(b := None) = (f(a := None))(b := None)"
  by (rule ext) simp

lemma finish_as_transition:
  "settle p s (delete_pending callbackId (clear_timer i (clear_timer t w))\<lparr>disk := fs\<rparr>) =
     transition callbackId \<lparr>promise = p, timeout = t, pollInterval = i\<rparr> fs s w"
  by (simp add: settle_def delete_pending_def clear_timer_def transition_def)

lemma finish_as_transition_same_disk:
  "settle p s (delete_pending callbackId (clear_timer i (clear_timer t w))) =
     transition callbackId \<lparr>promise = p, timeout = t, pollInterval = i\<rparr> (disk w) s w"
  by (simp add: settle_def delete_pending_def clear_timer_def transition_def)

lemma poll_catch_as_transition:
  "poll_catch callbackId t i p msg w =
     transition callbackId \<lparr>promise = p, timeout = t, pollInterval = i\<rparr> (disk w)
       (Rejected (McpError InternalError (''Failed to read callback data: '' @ msg))) w"
  by (simp add: poll_catch_def finish_as_transition_same_disk)

lemma transition_after_cleanup:
  "transition callbackId \<lparr>promise = p, timeout = t, pollInterval = i\<rparr> fs s
     (delete_pending callbackId (clear_timer i (clear_timer t w))) =
   transition callbackId \<lparr>promise = p, timeout = t, pollInterval = i\<rparr> fs s w"
  by (simp add: delete_pending_def clear_timer_def transition_def clear_both_twice)

lemma transition_after_disk:
  "transition callbackId callback fs s (w\<lparr>disk := fs'\<rparr>) = transition callbackId callback fs s w"
  by (simp add: transition_def)

lemma disk_cleanup:
  "disk (delete_pending callbackId w) = disk w" "disk (clear_timer h w) = disk w"
  by (simp_all add: delete_pending_def clear_timer_def)

lemma poll_handler_cases:
  "poll_handler parse callbackId t i p w = w
   \<or> (\<exists>fs s. poll_handler parse callbackId t i p w =
         transition callbackId \<lparr>promise = p, timeout = t, pollInterval = i\<rparr> fs s w)"
  unfolding poll_handler_def Let_def
  by (auto simp: poll_catch_as_transition transition_after_cleanup transition_after_disk
        finish_as_transition finish_as_transition_same_disk
      split: sum.splits)

lemma timeout_handler_as_transition:
  assumes "pendingCallbacks w callbackId = Some callback"
    and "timeout callback = h" and "promise callback = p"
  shows "\<exists>fs. timeout_handler callbackId p (clear_timer h w) =
           transition callbackId callback fs
             (Rejected (McpError InternalError (timeout_message callbackId))) w"
proof -
  obtain i where cb: "callback = \<lparr>promise = p, timeout = h, pollInterval = i\<rparr>"
    using assms by (cases callback) auto
  have pend: "pendingCallbacks (clear_timer h w) callbackId = Some callback"
    using assms by (simp add: clear_timer_def)
  show ?thesis
    unfolding timeout_handler_def Let_def pend option.case
    by (auto simp: cb finish_as_transition finish_as_transition_same_disk disk_cleanup
          split: sum.splits)
qed

lemma transition_fields:
  "pendingCallbacks (transition callbackId callback fs s w) =
     (pendingCallbacks w)(callbackId := None)"
  "timers (transition callbackId callback fs s w) =
     ((timers w)(timeout callback := None))(pollInterval callback := None)"
  "settled (transition callbackId callback fs s w) = settled w @ [(promise callback, s)]"
  "nextHandle (transition callbackId callback fs s w) = nextHandle w"
  "disk (transition callbackId callback fs s w) = fs"
  "rateLimitState (transition callbackId callback fs s w) = rateLimitState w"
  "opened (transition callbackId callback fs s w) = opened w"
  by (simp_all add: transition_def)

lemma registry_ok_transition:
  assumes ok: "registry_ok w" and pend: "pendingCallbacks w callbackId = Some callback"
  shows "registry_ok (transition callbackId callback fs s w)"
  using ok pend unfolding registry_ok_def transition_fields
  by (auto simp: image_iff) (metis timer.inject timer.distinct option.inject)+

lemma registry_ok_entry:
  assumes "registry_ok w" and "pendingCallbacks w i = Some c"
  shows "timers w (timeout c) = Some (TimeoutTimer i (promise c))"
    and "timers w (pollInterval c) = Some (PollTimer i (timeout c) (promise c))"
    and "promise c \<notin> fst ` set (settled w)"
    and "promise c < nextHandle w"
  using assms unfolding registry_ok_def by simp_all

lemma registry_ok_timeout_timer:
  assumes "registry_ok w" and "timers w h = Some (TimeoutTimer i p)"
  shows "\<exists>c. pendingCallbacks w i = Some c \<and> timeout c = h \<and> promise c = p"
  using assms unfolding registry_ok_def by simp

lemma registry_ok_poll_timer:
  assumes "registry_ok w" and "timers w h = Some (PollTimer i t p)"
  shows "\<exists>c. pendingCallbacks w i = Some c \<and> pollInterval c = h \<and> timeout c = t \<and> promise c = p"
  using assms unfolding registry_ok_def by simp

lemma registry_ok_promise_inj:
  assumes "registry_ok w" and "pendingCallbacks w i = Some ci" and "pendingCallbacks w j = Some cj"
    and "promise ci = promise cj"
  shows "i = j"
proof -
  have "\<forall>i j ci cj. pendingCallbacks w i = Some ci \<and> pendingCallbacks w j = Some cj
           \<and> promise ci = promise cj \<longrightarrow> i = j"
    using assms(1) unfolding registry_ok_def by simp
  then show ?thesis using assms(2-4) by blast
qed

lemma registry_ok_distinct:
  "registry_ok w \<Longrightarrow> distinct (map fst (settled w))"
  unfolding registry_ok_def by simp

lemma registry_ok_armed_lt:
  assumes "registry_ok w" and "timers w h = Some tm"
  shows "h < nextHandle w"
  using assms unfolding registry_ok_def by simp

lemma registry_ok_settled_lt:
  assumes "registry_ok w" and "p \<in> fst ` set (settled w)"
  shows "p < nextHandle w"
proof -
  have "\<forall>p \<in> fst ` set (settled w). p < nextHandle w"
    using assms(1) unfolding registry_ok_def by simp
  then show ?thesis using assms(2) by blast
qed

lemma waitForCallback_fields:
  "pendingCallbacks (snd (waitForCallback callbackId w)) =
     (pendingCallbacks w)(callbackId \<mapsto>
        \<lparr>promise = nextHandle w, timeout = nextHandle w + 1, pollInterval = nextHandle w + 2\<rparr>)"
  "timers (snd (waitForCallback callbackId w)) =
     (timers w)(nextHandle w + 1 \<mapsto> TimeoutTimer callbackId (nextHandle w),
                nextHandle w + 2 \<mapsto> PollTimer callbackId (nextHandle w + 1) (nextHandle w))"
  "settled (snd (waitForCallback callbackId w)) = settled w"
  "nextHandle (snd (waitForCallback callbackId w)) = nextHandle w + 3"
  "disk (snd (waitForCallback callbackId w)) = disk w"
  "rateLimitState (snd (waitForCallback callbackId w)) = rateLimitState w"
  "opened (snd (waitForCallback callbackId w)) = opened w"
  "fst (waitForCallback callbackId w) = nextHandle w"
  by (simp_all add: waitForCallback_def Let_def)

lemma registry_okI:
  assumes "\<And>i c. pendingCallbacks w i = Some c \<Longrightarrow>
             timers w (timeout c) = Some (TimeoutTimer i (promise c))"
    and "\<And>i c. pendingCallbacks w i = Some c \<Longrightarrow>
             timers w (pollInterval c) = Some (PollTimer i (timeout c) (promise c))"
    and "\<And>i c. pendingCallbacks w i = Some c \<Longrightarrow> promise c \<notin> fst ` set (settled w)"
    and "\<And>i c. pendingCallbacks w i = Some c \<Longrightarrow> promise c < nextHandle w"
    and "\<And>h i p. timers w h = Some (TimeoutTimer i p) \<Longrightarrow>
             \<exists>c. pendingCallbacks w i = Some c \<and> timeout c = h \<and> promise c = p"
    and "\<And>h i t p. timers w h = Some (PollTimer i t p) \<Longrightarrow>
             \<exists>c. pendingCallbacks w i = Some c \<and> pollInterval c = h \<and> timeout c = t
                  \<and> promise c = p"
    and "\<And>i j ci cj. pendingCallbacks w i = Some ci \<Longrightarrow> pendingCallbacks w j = Some cj \<Longrightarrow>
             promise ci = promise cj \<Longrightarrow> i = j"
    and "distinct (map fst (settled w))"
    and "\<And>h. timers w h \<noteq> None \<Longrightarrow> h < nextHandle w"
    and "\<And>p. p \<in> fst ` set (settled w) \<Longrightarrow> p < nextHandle w"
  shows "registry_ok w"
  unfolding registry_ok_def
  by (intro conjI allI impI ballI; (elim conjE)?; (rule assms; assumption))

lemma registry_ok_waitForCallback:
  assumes ok: "registry_ok w" and fresh: "pendingCallbacks w callbackId = None"
  shows "registry_ok (snd (waitForCallback callbackId w))"
proof (rule registry_okI; unfold waitForCallback_fields)
  let ?n = "nextHandle w"
  let ?P = "(pendingCallbacks w)(callbackId \<mapsto>
        \<lparr>promise = ?n, timeout = ?n + 1, pollInterval = ?n + 2\<rparr>)"
  let ?T = "(timers w)(?n + 1 \<mapsto> TimeoutTimer callbackId ?n,
                ?n + 2 \<mapsto> PollTimer callbackId (?n + 1) ?n)"
  have armed: "\<And>h. timers w h \<noteq> None \<Longrightarrow> h < ?n"
    using registry_ok_armed_lt [OF ok] by blast
  have used: "\<And>p. p \<in> fst ` set (settled w) \<Longrightarrow> p < ?n"
    using registry_ok_settled_lt [OF ok] by blast
  have entry_lt: "\<And>i c. pendingCallbacks w i = Some c \<Longrightarrow> timeout c < ?n \<and> pollInterval c < ?n"
    using registry_ok_entry(1,2) [OF ok] registry_ok_armed_lt [OF ok] by blast
  have new_entry: "\<And>i c. ?P i = Some c \<Longrightarrow> i = callbackId \<Longrightarrow>
        c = \<lparr>promise = ?n, timeout = ?n + 1, pollInterval = ?n + 2\<rparr>"
    by simp
  have old_entry: "\<And>i c. ?P i = Some c \<Longrightarrow> i \<noteq> callbackId \<Longrightarrow> pendingCallbacks w i = Some c"
    by simp
  {
    fix i c assume a: "?P i = Some c"
    show "?T (timeout c) = Some (TimeoutTimer i (promise c))"
    proof (cases "i = callbackId")
      case True
      then show ?thesis using new_entry [OF a] by simp
    next
      case False
      from old_entry [OF a False] registry_ok_entry(1) [OF ok] entry_lt
      show ?thesis by fastforce
    qed
    show "?T (pollInterval c) = Some (PollTimer i (timeout c) (promise c))"
    proof (cases "i = callbackId")
      case True
      then show ?thesis using new_entry [OF a] by simp
    next
      case False
      from old_entry [OF a False] registry_ok_entry(2) [OF ok] entry_lt
      show ?thesis by fastforce
    qed
    show "promise c \<notin> fst ` set (settled w)"
    proof (cases "i = callbackId")
      case True
      then show ?thesis using new_entry [OF a] used [of ?n] by auto
    next
      case False
      from old_entry [OF a False] registry_ok_entry(3) [OF ok] show ?thesis by blast
    qed
    show "promise c < ?n + 3"
    proof (cases "i = callbackId")
      case True
      then show ?thesis using new_entry [OF a] by simp
    next
      case False
      from old_entry [OF a False] registry_ok_entry(4) [OF ok] show ?thesis
        by (simp add: trans_less_add1)
    qed
  }
  {
    fix h i p
    assume a: "?T h = Some (TimeoutTimer i p)"
    show "\<exists>c. ?P i = Some c \<and> timeout c = h \<and> promise c = p"
    proof (cases "h = ?n + 1")
      case True
      then show ?thesis using a by auto
    next
      case False
      then have "timers w h = Some (TimeoutTimer i p)"
        using a by (auto split: if_splits)
      from registry_ok_timeout_timer [OF ok this] obtain c where c: "pendingCallbacks w i = Some c"
        "timeout c = h" "promise c = p" by blast
      then have "i \<noteq> callbackId" using fresh by auto
      then show ?thesis using c by auto
    qed
  }
  {
    fix h i t p
    assume a: "?T h = Some (PollTimer i t p)"
    show "\<exists>c. ?P i = Some c \<and> pollInterval c = h \<and> timeout c = t \<and> promise c = p"
    proof (cases "h = ?n + 2")
      case True
      then show ?thesis using a by auto
    next
      case False
      then have "timers w h = Some (PollTimer i t p)"
        using a by (auto split: if_splits)
      from registry_ok_poll_timer [OF ok this] obtain c where c: "pendingCallbacks w i = Some c"
        "pollInterval c = h" "timeout c = t" "promise c = p" by blast
      then have "i \<noteq> callbackId" using fresh by auto
      then show ?thesis using c by auto
    qed
  }
  {
    fix i j ci cj
    assume a: "?P i = Some ci" and b: "?P j = Some cj" and e: "promise ci = promise cj"
    have fresh_promise: "\<And>k ck. pendingCallbacks w k = Some ck \<Longrightarrow> promise ck \<noteq> ?n"
      using registry_ok_entry(4) [OF ok] by fastforce
    show "i = j"
    proof (cases "i = callbackId")
      case True
      note i = this
      show ?thesis
      proof (cases "j = callbackId")
        case True
        then show ?thesis using i by simp
      next
        case False
        from old_entry [OF b False] new_entry [OF a i] e fresh_promise show ?thesis by fastforce
      qed
    next
      case False
      note i = this
      show ?thesis
      proof (cases "j = callbackId")
        case True
        from old_entry [OF a i] new_entry [OF b True] e fresh_promise show ?thesis by fastforce
      next
        case False
        from old_entry [OF a i] old_entry [OF b False] e show ?thesis
          by (rule registry_ok_promise_inj [OF ok])
      qed
    qed
  }
  show "distinct (map fst (settled w))"
    using ok by (rule registry_ok_distinct)
  {
    fix h assume "?T h \<noteq> None"
    then show "h < ?n + 3" using armed [of h] by (auto split: if_splits)
  }
  {
    fix p assume "p \<in> fst ` set (settled w)"
    then show "p < ?n + 3" using used [of p] by auto
  }
qed

lemma registry_ok_SetDisk:
  "registry_ok w \<Longrightarrow> registry_ok (w\<lparr>disk := fs\<rparr>)"
  by (simp add: registry_ok_def)

lemma registry_ok_initial:
  "registry_ok (initial_world fs)"
  by (simp add: registry_ok_def initial_world_def)

lemma fire_cases:
  assumes ok: "registry_ok w"
  shows "fire parse h w = w
         \<or> (\<exists>callbackId callback fs s.
               pendingCallbacks w callbackId = Some callback
               \<and> (h = timeout callback \<or> h = pollInterval callback)
               \<and> fire parse h w = transition callbackId callback fs s w)"
proof (cases "timers w h")
  case None
  then show ?thesis by (simp add: fire_def)
next
  case (Some tm)
  show ?thesis
  proof (cases tm)
    case (TimeoutTimer callbackId p)
    then obtain callback where cb: "pendingCallbacks w callbackId = Some callback"
        "timeout callback = h" "promise callback = p"
      using registry_ok_timeout_timer [OF ok, of h callbackId p] Some by auto
    from timeout_handler_as_transition [OF cb]
    obtain fs where "timeout_handler callbackId p (clear_timer h w) =
           transition callbackId callback fs
             (Rejected (McpError InternalError (timeout_message callbackId))) w" ..
    then have "fire parse h w = transition callbackId callback fs
             (Rejected (McpError InternalError (timeout_message callbackId))) w"
      using Some TimeoutTimer by (simp add: fire_def)
    with cb show ?thesis by blast
  next
    case (PollTimer callbackId t p)
    then obtain callback where cb: "pendingCallbacks w callbackId = Some callback"
        "pollInterval callback = h" "timeout callback = t" "promise callback = p"
      using registry_ok_poll_timer [OF ok, of h callbackId t p] Some by auto
    then have eq: "callback = \<lparr>promise = p, timeout = t, pollInterval = h\<rparr>"
      by (cases callback) auto
    have f: "fire parse h w = poll_handler parse callbackId t h p w"
      using Some PollTimer by (simp add: fire_def)
    from poll_handler_cases [of parse callbackId t h p w] show ?thesis
    proof
      assume "poll_handler parse callbackId t h p w = w"
      then show ?thesis using f by simp
    next
      assume "\<exists>fs s. poll_handler parse callbackId t h p w =
         transition callbackId \<lparr>promise = p, timeout = t, pollInterval = h\<rparr> fs s w"
      then obtain fs s where "fire parse h w = transition callbackId callback fs s w"
        using f eq by auto
      with cb show ?thesis by blast
    qed
  qed
qed

lemma registry_ok_fire:
  "registry_ok w \<Longrightarrow> registry_ok (fire parse h w)"
  using fire_cases [of w parse h] registry_ok_transition by fastforce

lemma registry_ok_run:
  "registry_ok w \<Longrightarrow> unique_ids parse es w \<Longrightarrow> registry_ok (run parse es w)"
proof (induction es arbitrary: w)
  case Nil
  then show ?case by simp
next
  case (Cons e es)
  have "registry_ok (step parse e w)"
  proof (cases e)
    case (Fire h)
    then show ?thesis using Cons.prems(1) by (simp add: registry_ok_fire)
  next
    case (Register callbackId)
    then show ?thesis using Cons.prems by (simp add: registry_ok_waitForCallback)
  next
    case (SetDisk fs)
    then show ?thesis using Cons.prems(1) by (simp add: registry_ok_SetDisk)
  qed
  moreover have "unique_ids parse es (step parse e w)"
    using Cons.prems(2) by simp
  ultimately show ?case using Cons.IH by simp
qed

lemma fire_unarmed:
  "timers w h = None \<Longrightarrow> fire parse h w = w"
  by (simp add: fire_def)

text \<open>
  C5. In every state the process reaches from its start, by timers firing, requests
  registering under ids that are not pending, and the file system changing in any way:
  no promise has received more than one call of \<open>resolve\<close> or \<open>reject\<close>; a pending
  request's promise has received none, both its handles are armed, and its timeout,
  when it fires, makes the transition; every armed handle belongs to a pending request;
  a handle that fires either changes nothing or makes the one transition of the pending
  request it belongs to; and the transition removes the request from the registry, logs
  exactly one settlement, and leaves both handles of the request disarmed, so that
  firing either of them again changes nothing.
\<close>

theorem first_transition_wins:
  assumes ids: "unique_ids parse es (initial_world fs0)"
  shows "distinct (map fst (settled (run parse es (initial_world fs0))))
    \<and> (\<forall>callbackId callback.
          pendingCallbacks (run parse es (initial_world fs0)) callbackId = Some callback \<longrightarrow>
            promise callback \<notin> fst ` set (settled (run parse es (initial_world fs0)))
            \<and> timers (run parse es (initial_world fs0)) (timeout callback) =
                Some (TimeoutTimer callbackId (promise callback))
            \<and> timers (run parse es (initial_world fs0)) (pollInterval callback) =
                Some (PollTimer callbackId (timeout callback) (promise callback))
            \<and> (\<exists>fs. fire parse (timeout callback) (run parse es (initial_world fs0)) =
                  transition callbackId callback fs
                    (Rejected (McpError InternalError (timeout_message callbackId)))
                    (run parse es (initial_world fs0))))
    \<and> (\<forall>h. timers (run parse es (initial_world fs0)) h \<noteq> None \<longrightarrow>
          (\<exists>callbackId callback.
             pendingCallbacks (run parse es (initial_world fs0)) callbackId = Some callback
             \<and> (h = timeout callback \<or> h = pollInterval callback)))
    \<and> (\<forall>h. fire parse h (run parse es (initial_world fs0)) = run parse es (initial_world fs0)
          \<or> (\<exists>callbackId callback fs s.
                pendingCallbacks (run parse es (initial_world fs0)) callbackId = Some callback
                \<and> (h = timeout callback \<or> h = pollInterval callback)
                \<and> fire parse h (run parse es (initial_world fs0)) =
                    transition callbackId callback fs s (run parse es (initial_world fs0))))
    \<and> (\<forall>callbackId callback fs s h.
          pendingCallbacks (transition callbackId callback fs s (run parse es (initial_world fs0)))
            callbackId = None
          \<and> settled (transition callbackId callback fs s (run parse es (initial_world fs0))) =
              settled (run parse es (initial_world fs0)) @ [(promise callback, s)]
          \<and> (h = timeout callback \<or> h = pollInterval callback \<longrightarrow>
               fire parse h (transition callbackId callback fs s (run parse es (initial_world fs0))) =
                 transition callbackId callback fs s (run parse es (initial_world fs0))))"
proof -
  let ?w = "run parse es (initial_world fs0)"
  have ok: "registry_ok ?w"
    using registry_ok_initial ids by (rule registry_ok_run)
  have d: "distinct (map fst (settled ?w))"
    using ok by (rule registry_ok_distinct)
  have pending: "\<And>callbackId callback. pendingCallbacks ?w callbackId = Some callback \<Longrightarrow>
            promise callback \<notin> fst ` set (settled ?w)
            \<and> timers ?w (timeout callback) = Some (TimeoutTimer callbackId (promise callback))
            \<and> timers ?w (pollInterval callback) =
                Some (PollTimer callbackId (timeout callback) (promise callback))
            \<and> (\<exists>fs. fire parse (timeout callback) ?w =
                  transition callbackId callback fs
                    (Rejected (McpError InternalError (timeout_message callbackId))) ?w)"
  proof -
    fix callbackId callback
    assume p: "pendingCallbacks ?w callbackId = Some callback"
    note e = registry_ok_entry [OF ok p]
    from timeout_handler_as_transition [OF p refl refl]
    obtain fs where "timeout_handler callbackId (promise callback) (clear_timer (timeout callback) ?w) =
           transition callbackId callback fs
             (Rejected (McpError InternalError (timeout_message callbackId))) ?w" ..
    then have "fire parse (timeout callback) ?w =
           transition callbackId callback fs
             (Rejected (McpError InternalError (timeout_message callbackId))) ?w"
      using e(1) by (simp add: fire_def)
    then show "promise callback \<notin> fst ` set (settled ?w)
            \<and> timers ?w (timeout callback) = Some (TimeoutTimer callbackId (promise callback))
            \<and> timers ?w (pollInterval callback) =
                Some (PollTimer callbackId (timeout callback) (promise callback))
            \<and> (\<exists>fs. fire parse (timeout callback) ?w =
                  transition callbackId callback fs
                    (Rejected (McpError InternalError (timeout_message callbackId))) ?w)"
      using e by blast
  qed
  have armed: "\<And>h. timers ?w h \<noteq> None \<Longrightarrow>
          (\<exists>callbackId callback. pendingCallbacks ?w callbackId = Some callback
             \<and> (h = timeout callback \<or> h = pollInterval callback))"
  proof -
    fix h assume "timers ?w h \<noteq> None"
    then obtain tm where tm: "timers ?w h = Some tm" by auto
    show "\<exists>callbackId callback. pendingCallbacks ?w callbackId = Some callback
             \<and> (h = timeout callback \<or> h = pollInterval callback)"
    proof (cases tm)
      case (TimeoutTimer i p)
      with tm registry_ok_timeout_timer [OF ok, of h i p] show ?thesis by blast
    next
      case (PollTimer i t p)
      with tm registry_ok_poll_timer [OF ok, of h i t p] show ?thesis by blast
    qed
  qed
  have after: "\<And>callbackId callback fs s h.
          pendingCallbacks (transition callbackId callback fs s ?w) callbackId = None
          \<and> settled (transition callbackId callback fs s ?w) = settled ?w @ [(promise callback, s)]
          \<and> (h = timeout callback \<or> h = pollInterval callback \<longrightarrow>
               fire parse h (transition callbackId callback fs s ?w) =
                 transition callbackId callback fs s ?w)"
    by (auto simp: transition_fields intro!: fire_unarmed)
  show ?thesis
    using d pending armed fire_cases [OF ok, of parse] after by blast
qed

lemma sample_path:
  "resolve_path (callbackFilePath ''get-item-1000-k3j9x0q2a'') =
     [''tmp'', ''ulysses-mcp-callback-get-item-1000-k3j9x0q2a.json'']"
  by (simp add: resolve_path_def resolve_from_def callbackFilePath_def)

lemma final_path_numeral:
  "final_path (numeral k) fs p =
     (case node_at fs p of
        Some (Symlink target) \<Rightarrow> final_path (pred_numeral k) fs (resolve_from (butlast p) target)
      | _ \<Rightarrow> Some p)"
  by (simp add: numeral_eq_Suc)

lemma sample_callbackId:
  "new_callbackId sample_env ''get-item'' = ''get-item-1000-k3j9x0q2a''"
  "new_callbackId (sample_env\<lparr>open_failure := failure\<rparr>) ''get-item'' = ''get-item-1000-k3j9x0q2a''"
  by (simp_all add: new_callbackId_def sample_env_def show_int_def digits_of.simps digit_char_def)

lemmas wait_eval =
  fire_def waitForCallback_def poll_handler_def poll_catch_def timeout_handler_def
  clear_timer_def delete_pending_def settle_def initial_world_def Let_def
  existsSync_def readFileSync_def unlinkSync_def node_at_def MAXSYMLINKS_def
  sample_path final_path_numeral

theorem first_transition_wins_witness:
  "unique_ids sample_parse
     [Register ''get-item-1000-k3j9x0q2a'', Fire 2, SetDisk artifact_disk] (initial_world Map.empty)
   \<and> distinct (map fst (settled (run sample_parse
        [Register ''get-item-1000-k3j9x0q2a'', Fire 2, SetDisk artifact_disk]
        (initial_world Map.empty))))
   \<and> pendingCallbacks (run sample_parse
        [Register ''get-item-1000-k3j9x0q2a'', Fire 2, SetDisk artifact_disk]
        (initial_world Map.empty)) ''get-item-1000-k3j9x0q2a''
       = Some \<lparr>promise = 0, timeout = 1, pollInterval = 2\<rparr>
   \<and> promise \<lparr>promise = 0, timeout = 1, pollInterval = 2\<rparr> \<notin> fst ` set (settled (run sample_parse
        [Register ''get-item-1000-k3j9x0q2a'', Fire 2, SetDisk artifact_disk]
        (initial_world Map.empty)))
   \<and> timers (run sample_parse
        [Register ''get-item-1000-k3j9x0q2a'', Fire 2, SetDisk artifact_disk]
        (initial_world Map.empty)) 2
       = Some (PollTimer ''get-item-1000-k3j9x0q2a'' 1 0)
   \<and> settled (run sample_parse
        [Register ''get-item-1000-k3j9x0q2a'', Fire 2, SetDisk artifact_disk, Fire 2, Fire 1, Fire 2]
        (initial_world Map.empty))
       = [(0, Resolved (JObj [(''title'', JStr ''Notes'')]))]
   \<and> settled (run sample_parse
        [Register ''get-item-1000-k3j9x0q2a'', Fire 2, Fire 1, Fire 2, SetDisk artifact_disk, Fire 2]
        (initial_world Map.empty))
       = [(0, Rejected (McpError InternalError (timeout_message ''get-item-1000-k3j9x0q2a'')))]"
proof -
  let ?tr = "[Register ''get-item-1000-k3j9x0q2a'', Fire 2, SetDisk artifact_disk]"
  have u: "unique_ids sample_parse ?tr (initial_world Map.empty)"
    by (simp add: initial_world_def)
  have p: "pendingCallbacks (run sample_parse ?tr (initial_world Map.empty))
             ''get-item-1000-k3j9x0q2a'' = Some \<lparr>promise = 0, timeout = 1, pollInterval = 2\<rparr>"
    by (simp add: wait_eval)
  note T = first_transition_wins [OF u]
  have d: "distinct (map fst (settled (run sample_parse ?tr (initial_world Map.empty))))"
    using T by blast
  have e: "promise \<lparr>promise = 0, timeout = 1, pollInterval = 2\<rparr> \<notin> fst ` set (settled (run sample_parse
        ?tr (initial_world Map.empty)))
      \<and> timers (run sample_parse ?tr (initial_world Map.empty))
            (pollInterval \<lparr>promise = 0, timeout = 1, pollInterval = 2\<rparr>)
       = Some (PollTimer ''get-item-1000-k3j9x0q2a''
            (timeout \<lparr>promise = 0, timeout = 1, pollInterval = 2\<rparr>)
            (promise \<lparr>promise = 0, timeout = 1, pollInterval = 2\<rparr>))"
    using T p by blast
  have s1: "settled (run sample_parse
        [Register ''get-item-1000-k3j9x0q2a'', Fire 2, SetDisk artifact_disk, Fire 2, Fire 1, Fire 2]
        (initial_world Map.empty))
       = [(0, Resolved (JObj [(''title'', JStr ''Notes'')]))]"
    by (simp add: wait_eval artifact_disk_def sample_parse_def)
  have s2: "settled (run sample_parse
        [Register ''get-item-1000-k3j9x0q2a'', Fire 2, Fire 1, Fire 2, SetDisk artifact_disk, Fire 2]
        (initial_world Map.empty))
       = [(0, Rejected (McpError InternalError (timeout_message ''get-item-1000-k3j9x0q2a'')))]"
    by (simp add: wait_eval artifact_disk_def sample_parse_def)
  from e have e': "promise \<lparr>promise = 0, timeout = 1, pollInterval = 2\<rparr> \<notin> fst ` set (settled (run sample_parse
        ?tr (initial_world Map.empty)))
      \<and> timers (run sample_parse ?tr (initial_world Map.empty)) 2
       = Some (PollTimer ''get-item-1000-k3j9x0q2a'' 1 0)"
    by simp
  show ?thesis using u d p e' s1 s2 by blast
qed

section \<open>Properties of a request from dispatch to settlement\<close>

lemma final_path_plain:
  assumes "node_at fs q = Some (File content mode)"
  shows "final_path MAXSYMLINKS fs q = Some q"
  using assms by (simp add: MAXSYMLINKS_def eval_nat_numeral)

lemma poll_handler_success:
  assumes artifact: "node_at (disk w) (resolve_path (callbackFilePath callbackId)) = Some (File content mode)"
    and parsed: "parse content = Inr (JObj kvs)"
    and ok: "map_of kvs ''isError'' = Some (JBool False)"
  shows "poll_handler parse callbackId t i p w =
           transition callbackId \<lparr>promise = p, timeout = t, pollInterval = i\<rparr>
             ((disk w)(resolve_path (callbackFilePath callbackId) := None))
             (Resolved (case map_of kvs ''data'' of None \<Rightarrow> JUndefined | Some v \<Rightarrow> v)) w"
proof -
  have ex: "existsSync (disk w) (callbackFilePath callbackId)"
    using artifact by (simp add: existsSync_def final_path_plain)
  have rd: "readFileSync (disk w) (callbackFilePath callbackId) = Inr content"
    using artifact by (simp add: readFileSync_def final_path_plain)
  have ul: "unlinkSync (disk w) (callbackFilePath callbackId) =
              Inr ((disk w)(resolve_path (callbackFilePath callbackId) := None))"
    using artifact by (simp add: unlinkSync_def)
  show ?thesis
    unfolding poll_handler_def Let_def
    by (simp add: ex rd ul parsed ok disk_cleanup finish_as_transition)
qed

lemma executeUlyssesCommand_Awaiting:
  assumes "executeUlyssesCommand e action params w = (Awaiting p, w1)"
  shows "p = nextHandle w"
    and "timers w1 (p + 1) = Some (TimeoutTimer (new_callbackId e action) p)"
    and "timers w1 (p + 2) = Some (PollTimer (new_callbackId e action) (p + 1) p)"
    and "pendingCallbacks w1 (new_callbackId e action) =
           Some \<lparr>promise = p, timeout = p + 1, pollInterval = p + 2\<rparr>"
    and "settled w1 = settled w"
    and "opened w1 = opened w @ [callback_url action (new_callbackId e action) params]"
    and "action \<in> set CALLBACK_ACTIONS"
  using assms unfolding executeUlyssesCommand_def waitForCallback_def open_url_def Let_def
  by (auto split: if_splits prod.splits sum.splits option.splits)

text \<open>
  C9. A response-needing call has reached the point where it awaits its promise, and a
  regular file at the artifact path of its correlation id parses to an object whose
  \<open>isError\<close> is \<open>false\<close>. Then the next poll tick resolves the promise with the
  object's \<open>data\<close> property, and nothing else; the call returns the serialisation of
  exactly that value; the artifact is no longer on disk; and the request has left the
  registry with both its handles disarmed.
\<close>

theorem artifact_round_trip:
  assumes exec: "executeUlyssesCommand e action params w = (Awaiting p, w1)"
    and artifact: "node_at fs (resolve_path (callbackFilePath (new_callbackId e action))) =
                     Some (File content mode)"
    and parsed: "parse content = Inr (JObj kvs)"
    and success: "map_of kvs ''isError'' = Some (JBool False)"
  shows "settled (fire parse (p + 2) (w1\<lparr>disk := fs\<rparr>)) =
           settled w1 @ [(p, Resolved (case map_of kvs ''data'' of None \<Rightarrow> JUndefined | Some v \<Rightarrow> v))]
       \<and> await_result (Resolved (case map_of kvs ''data'' of None \<Rightarrow> JUndefined | Some v \<Rightarrow> v)) =
           Inr (Stringified (case map_of kvs ''data'' of None \<Rightarrow> JUndefined | Some v \<Rightarrow> v))
       \<and> node_at (disk (fire parse (p + 2) (w1\<lparr>disk := fs\<rparr>)))
            (resolve_path (callbackFilePath (new_callbackId e action))) = None
       \<and> \<not> existsSync (disk (fire parse (p + 2) (w1\<lparr>disk := fs\<rparr>)))
              (callbackFilePath (new_callbackId e action))
       \<and> pendingCallbacks (fire parse (p + 2) (w1\<lparr>disk := fs\<rparr>)) (new_callbackId e action) = None
       \<and> timers (fire parse (p + 2) (w1\<lparr>disk := fs\<rparr>)) (p + 1) = None
       \<and> timers (fire parse (p + 2) (w1\<lparr>disk := fs\<rparr>)) (p + 2) = None"
proof -
  let ?id = "new_callbackId e action"
  let ?q = "resolve_path (callbackFilePath ?id)"
  let ?d = "case map_of kvs ''data'' of None \<Rightarrow> JUndefined | Some v \<Rightarrow> v"
  let ?w = "w1\<lparr>disk := fs\<rparr>"
  note a = executeUlyssesCommand_Awaiting [OF exec]
  have ne: "?q \<noteq> []"
    using artifact by (auto simp: node_at_def)
  have "fire parse (p + 2) ?w = poll_handler parse ?id (p + 1) (p + 2) p ?w"
    using a(3) by (simp add: fire_def)
  also have "\<dots> = transition ?id \<lparr>promise = p, timeout = p + 1, pollInterval = p + 2\<rparr>
                     (fs(?q := None)) (Resolved ?d) ?w"
    using poll_handler_success [of ?w ?id content mode parse kvs "p + 1" "p + 2" p]
      artifact parsed success by simp
  finally have f: "fire parse (p + 2) ?w =
      transition ?id \<lparr>promise = p, timeout = p + 1, pollInterval = p + 2\<rparr>
        (fs(?q := None)) (Resolved ?d) ?w" .
  have gone: "node_at (fs(?q := None)) ?q = None"
    using ne by (simp add: node_at_def)
  have "final_path MAXSYMLINKS (fs(?q := None)) ?q = Some ?q"
    using gone by (simp add: MAXSYMLINKS_def eval_nat_numeral)
  then have nex: "\<not> existsSync (fs(?q := None)) (callbackFilePath ?id)"
    using gone by (simp add: existsSync_def)
  show ?thesis
    unfolding f transition_fields using gone nex by simp
qed

theorem artifact_round_trip_witness:
  \<open>fst (executeUlyssesCommand sample_env ''get-item'' [(''id'', ''abc'')] (initial_world Map.empty))
     = Awaiting 0
   \<and> node_at artifact_disk (resolve_path (callbackFilePath (new_callbackId sample_env ''get-item'')))
     = Some (File ''{"callbackId":"get-item-1000-k3j9x0q2a","isError":false,"data":{"title":"Notes"}}'' 420)
   \<and> sample_parse ''{"callbackId":"get-item-1000-k3j9x0q2a","isError":false,"data":{"title":"Notes"}}''
     = Inr (JObj [(''callbackId'', JStr ''get-item-1000-k3j9x0q2a''), (''isError'', JBool False),
                  (''data'', JObj [(''title'', JStr ''Notes'')])])
   \<and> map_of [(''callbackId'', JStr ''get-item-1000-k3j9x0q2a''), (''isError'', JBool False),
              (''data'', JObj [(''title'', JStr ''Notes'')])] ''isError'' = Some (JBool False)
   \<and> settled (fire sample_parse 2
        (snd (executeUlyssesCommand sample_env ''get-item'' [(''id'', ''abc'')]
               (initial_world Map.empty))\<lparr>disk := artifact_disk\<rparr>))
     = [(0, Resolved (JObj [(''title'', JStr ''Notes'')]))]
   \<and> await_result (Resolved (JObj [(''title'', JStr ''Notes'')]))
     = Inr (Stringified (JObj [(''title'', JStr ''Notes'')]))
   \<and> \<not> existsSync (disk (fire sample_parse 2
        (snd (executeUlyssesCommand sample_env ''get-item'' [(''id'', ''abc'')]
               (initial_world Map.empty))\<lparr>disk := artifact_disk\<rparr>)))
        (callbackFilePath (new_callbackId sample_env ''get-item''))\<close>
proof -
  let ?x = "executeUlyssesCommand sample_env ''get-item'' [(''id'', ''abc'')] (initial_world Map.empty)"
  note id = sample_callbackId(1)
  have x: "fst ?x = Awaiting 0"
    by (simp add: executeUlyssesCommand_def ALLOWED_ACTIONS_def CALLBACK_ACTIONS_def
          checkRateLimit_def DESTRUCTIVE_ACTIONS_def sample_env_def waitForCallback_def
          initial_world_def Let_def split_beta)
  then have exec: "?x = (Awaiting 0, snd ?x)"
    by (metis prod.collapse)
  have art: \<open>node_at artifact_disk (resolve_path (callbackFilePath (new_callbackId sample_env ''get-item'')))
     = Some (File ''{"callbackId":"get-item-1000-k3j9x0q2a","isError":false,"data":{"title":"Notes"}}'' 420)\<close>
    by (simp add: id sample_path node_at_def artifact_disk_def)
  have par: \<open>sample_parse ''{"callbackId":"get-item-1000-k3j9x0q2a","isError":false,"data":{"title":"Notes"}}''
     = Inr (JObj [(''callbackId'', JStr ''get-item-1000-k3j9x0q2a''), (''isError'', JBool False),
                  (''data'', JObj [(''title'', JStr ''Notes'')])])\<close>
    by (simp add: sample_parse_def)
  have suc: "map_of [(''callbackId'', JStr ''get-item-1000-k3j9x0q2a''), (''isError'', JBool False),
              (''data'', JObj [(''title'', JStr ''Notes'')])] ''isError'' = Some (JBool False)"
    by simp
  have s0: "settled (snd ?x) = []"
    using executeUlyssesCommand_Awaiting(5) [OF exec] by (simp add: initial_world_def)
  note T = artifact_round_trip [of sample_env "''get-item''" "[(''id'', ''abc'')]"
      "initial_world Map.empty" 0 "snd ?x" artifact_disk _ 420 sample_parse, OF exec art par suc]
  show ?thesis
    using T [unfolded add_0] x art par suc s0 by simp
qed

text \<open>
  C8. For an action outside the whitelist the call throws \<open>InvalidParams\<close> and the
  state is the one it started from: the rate-limit map is untouched, nothing is
  registered, and no URL has been handed to \<open>open\<close>. The outcome depends on neither the
  state nor the environment.
\<close>

theorem unknown_action_rejected_first:
  assumes "action \<notin> set ALLOWED_ACTIONS"
  shows "executeUlyssesCommand e action params w =
           (Threw (McpError InvalidParams (''Invalid action: '' @ action)), w)"
  using assms by (simp add: executeUlyssesCommand_def)

theorem unknown_action_rejected_first_witness:
  "''delete-all'' \<notin> set ALLOWED_ACTIONS
   \<and> executeUlyssesCommand sample_env ''delete-all'' [(''id'', ''abc'')] (initial_world Map.empty) =
       (Threw (McpError InvalidParams ''Invalid action: delete-all''), initial_world Map.empty)"
proof -
  have n: "''delete-all'' \<notin> set ALLOWED_ACTIONS"
    by (simp add: ALLOWED_ACTIONS_def)
  from unknown_action_rejected_first [OF n, of sample_env "[(''id'', ''abc'')]" "initial_world Map.empty"]
  show ?thesis using n by simp
qed

lemma sample_env_fields:
  "rate_clock sample_env = 1000" "helper_failure sample_env = None"
  "open_failure sample_env = None"
  by (simp_all add: sample_env_def)

text \<open>
  C2 fails on the code. When \<open>open\<close> fails for a response-needing action, the call throws
  at once, but the \<open>catch\<close> block of \<open>executeUlyssesCommand\<close> does not touch the wait
  it has registered: the entry is still in the registry and both handles are still
  armed. When the timeout fires later, it rejects a promise that nothing awaits.
\<close>

theorem dispatch_failure_leaves_wait_registered:
  "fst (executeUlyssesCommand (sample_env\<lparr>open_failure := Some ''spawn open ENOENT''\<rparr>)
          ''get-item'' [(''id'', ''abc'')] (initial_world Map.empty))
     = Threw (McpError InternalError ''MCP error -32603: spawn open ENOENT'')
   \<and> pendingCallbacks
        (snd (executeUlyssesCommand (sample_env\<lparr>open_failure := Some ''spawn open ENOENT''\<rparr>)
                ''get-item'' [(''id'', ''abc'')] (initial_world Map.empty)))
        ''get-item-1000-k3j9x0q2a''
     = Some \<lparr>promise = 0, timeout = 1, pollInterval = 2\<rparr>
   \<and> timers
        (snd (executeUlyssesCommand (sample_env\<lparr>open_failure := Some ''spawn open ENOENT''\<rparr>)
                ''get-item'' [(''id'', ''abc'')] (initial_world Map.empty))) 1
     = Some (TimeoutTimer ''get-item-1000-k3j9x0q2a'' 0)
   \<and> timers
        (snd (executeUlyssesCommand (sample_env\<lparr>open_failure := Some ''spawn open ENOENT''\<rparr>)
                ''get-item'' [(''id'', ''abc'')] (initial_world Map.empty))) 2
     = Some (PollTimer ''get-item-1000-k3j9x0q2a'' 1 0)
   \<and> settled (fire sample_parse 1
        (snd (executeUlyssesCommand (sample_env\<lparr>open_failure := Some ''spawn open ENOENT''\<rparr>)
                ''get-item'' [(''id'', ''abc'')] (initial_world Map.empty))))
     = [(0, Rejected (McpError InternalError (timeout_message ''get-item-1000-k3j9x0q2a'')))]"
  by (simp add: executeUlyssesCommand_def ALLOWED_ACTIONS_def CALLBACK_ACTIONS_def
        checkRateLimit_def DESTRUCTIVE_ACTIONS_def sample_callbackId sample_env_fields open_url_def
        dispatch_error_def split_beta wait_eval)

text \<open>
  C1 fails on the code. \<open>waitForCallback\<close> tests the artifact path with \<open>existsSync\<close>
  and reads it with \<open>readFileSync\<close>, both of which follow a symbolic link; it never
  calls \<open>lstat\<close>. With a link at the artifact path, the poll resolves the promise with
  the content of the link's target, cancels the timeout and removes the link.
  \<open>readSecure\<close> of the secure store, which \<open>index.ts\<close> does not call, refuses a
  link at the store's own callback path.
\<close>

theorem poll_follows_symlink:
  "lstatSync symlink_disk (callbackFilePath ''get-item-1000-k3j9x0q2a'') =
     Inr (Symlink ''/tmp/planted.json'')
   \<and> settled (run sample_parse
        [Register ''get-item-1000-k3j9x0q2a'', SetDisk symlink_disk, Fire 2]
        (initial_world Map.empty))
     = [(0, Resolved (JObj [(''title'', JStr ''Notes'')]))]
   \<and> timers (run sample_parse
        [Register ''get-item-1000-k3j9x0q2a'', SetDisk symlink_disk, Fire 2]
        (initial_world Map.empty)) 1 = None
   \<and> disk (run sample_parse
        [Register ''get-item-1000-k3j9x0q2a'', SetDisk symlink_disk, Fire 2]
        (initial_world Map.empty))
        [''tmp'', ''ulysses-mcp-callback-get-item-1000-k3j9x0q2a.json''] = None
   \<and> readSecure (tempDir_of ''/Users/u'')
        (getCallbackPath (tempDir_of ''/Users/u'') ''get-item-1000-k3j9x0q2a'')
        (sample_home_files
           ([''Users'', ''u'', ''Library'', ''Application Support'', ''ulysses-mcp'', ''tmp'',
             ''callback-get-item-1000-k3j9x0q2a.json''] \<mapsto> Symlink ''/Users/u/notes.txt''))
     = Inl (JsError ''Failed to read secure file: File is a symlink - potential security issue'')"
proof -
  have target: "resolve_from [''tmp''] ''/tmp/planted.json'' = [''tmp'', ''planted.json'']"
    by (simp add: resolve_from_def)
  have store_path:
    "resolve_path (getCallbackPath (tempDir_of ''/Users/u'') ''get-item-1000-k3j9x0q2a'') =
       [''Users'', ''u'', ''Library'', ''Application Support'', ''ulysses-mcp'', ''tmp'',
        ''callback-get-item-1000-k3j9x0q2a.json'']"
    by (simp add: resolve_path_def resolve_from_def getCallbackPath_def tempDir_of_def)
  have store_target:
    "resolve_from [''Users'', ''u'', ''Library'', ''Application Support'', ''ulysses-mcp'', ''tmp'']
       ''/Users/u/notes.txt'' = [''Users'', ''u'', ''notes.txt'']"
    by (simp add: resolve_from_def)
  have pre: "prefix (tempDir_of ''/Users/u'')
               (getCallbackPath (tempDir_of ''/Users/u'') ''get-item-1000-k3j9x0q2a'')"
    by (simp add: getCallbackPath_def)
  show ?thesis
    by (simp add: wait_eval symlink_disk_def sample_parse_def lstatSync_def readSecure_def
          target pre store_path store_target sample_home_files_def)
qed

text \<open>
  C4 fails on the code in its second half. An artifact that is not JSON makes the poll
  reject the promise with an internal error, but the \<open>catch\<close> block does not unlink the
  file, and it cancels the timeout whose handler would have: the file is still on disk
  after the rejection, and after any later firing of the two handles.
\<close>

theorem corrupt_artifact_stays_on_disk:
  "settled (run sample_parse
        [Register ''get-item-1000-k3j9x0q2a'', SetDisk corrupt_disk, Fire 2]
        (initial_world Map.empty))
     = [(0, Rejected (McpError InternalError
              ''Failed to read callback data: Unexpected token o in JSON at position 1''))]
   \<and> disk (run sample_parse
        [Register ''get-item-1000-k3j9x0q2a'', SetDisk corrupt_disk, Fire 2]
        (initial_world Map.empty))
        [''tmp'', ''ulysses-mcp-callback-get-item-1000-k3j9x0q2a.json'']
     = Some (File ''not json'' 420)
   \<and> timers (run sample_parse
        [Register ''get-item-1000-k3j9x0q2a'', SetDisk corrupt_disk, Fire 2]
        (initial_world Map.empty)) 1 = None
   \<and> timers (run sample_parse
        [Register ''get-item-1000-k3j9x0q2a'', SetDisk corrupt_disk, Fire 2]
        (initial_world Map.empty)) 2 = None
   \<and> disk (run sample_parse
        [Register ''get-item-1000-k3j9x0q2a'', SetDisk corrupt_disk, Fire 2, Fire 1, Fire 2]
        (initial_world Map.empty))
        [''tmp'', ''ulysses-mcp-callback-get-item-1000-k3j9x0q2a.json'']
     = Some (File ''not json'' 420)"
  by (simp add: wait_eval corrupt_disk_def sample_parse_def)

end
